theory Spec2Isabelle
  imports Main "HOL-Library.Sublist"
begin

section \<open>The entry routine of the postgres executable (src/backend/main/main.c)\<close>

text \<open>
  \<^verbatim>\<open>main\<close> is one sequence of statements, some of which end the process
  (\<^verbatim>\<open>exit\<close>, \<^verbatim>\<open>elog(FATAL)\<close>, \<^verbatim>\<open>abort\<close>, a role driver that keeps control).
  The model threads a process state through that sequence. The state carries how
  the process stands, its environment, the locale settings made permanent so far,
  and the trace of everything observable the process did, in order.

  The preprocessor symbols the file tests (\<^verbatim>\<open>WIN32\<close>, \<^verbatim>\<open>EXEC_BACKEND\<close>,
  \<^verbatim>\<open>LC_MESSAGES\<close>, \<^verbatim>\<open>USE_SSL\<close>, the MSVC 2013 x64 test) and the answers of the
  routines it calls but does not define are fields of a \<open>platform\<close> record, so
  every theorem holds for every build and every behaviour of those routines.
\<close>

subsection \<open>Data\<close>

datatype category = LC_COLLATE | LC_CTYPE | LC_MESSAGES | LC_MONETARY | LC_NUMERIC | LC_TIME

text \<open>
  The role drivers \<^verbatim>\<open>main\<close> can hand control to, with the arguments it passes.
  \<^verbatim>\<open>PostgresMain(argc, argv, dbname, username)\<close>: a \<^verbatim>\<open>NULL\<close> pointer is \<open>None\<close>.
\<close>

datatype call =
    SubPostmasterMain "string list"
  | AuxiliaryProcessMain "string list"
  | GucInfoMain
  | PostgresMain "string list" "string option" "string option"
  | PostmasterMain "string list"

datatype event =
    Extern string
  | Setlocale category string "string option"
  | Unsetenv string
  | Stdout string
  | Stderr string
  | CheckRoot
  | Call call

datatype status = Running | Exited int | Fatal string | Aborted | Handed_over

text \<open>
  What \<^verbatim>\<open>check_root\<close> reads. Outside Windows it is \<^verbatim>\<open>getuid()\<close> and
  \<^verbatim>\<open>geteuid()\<close>; under \<^verbatim>\<open>WIN32\<close> neither is called and the only primitive is
  \<^verbatim>\<open>pgwin32_is_admin()\<close>. The constructor therefore also tells which of the two
  builds is running.
\<close>

datatype identity =
    Posix (getuid: nat) (geteuid: nat)
  | Windows (pgwin32_is_admin: bool)

text \<open>
  The fields of a platform. \<open>ident\<close> is what the identity primitives answer.
  The flags are the preprocessor symbols, \<open>MSVC1800_AMD64\<close> standing for
  \<^verbatim>\<open>defined(_M_AMD64) && _MSC_VER == 1800\<close>. \<open>WSAStartup\<close> is the error code that
  call returns, \<open>PG_BACKEND_VERSIONSTR\<close> the version string of the build,
  \<open>gettext\<close> the macro \<^verbatim>\<open>_\<close>. \<open>get_progname\<close> and \<open>get_user_name_or_exit\<close> are
  routines of other files. \<open>get_progname\<close> is taken with what it returns (it is
  handed \<^verbatim>\<open>argv[0]\<close>, which is \<^verbatim>\<open>NULL\<close> for an empty vector).
  \<open>get_user_name_or_exit\<close> either returns the name of the user or, as its name
  says, ends the process when the name cannot be looked up: \<open>None\<close> is that exit.
  \<open>strdup\<close> is the library routine: the copy of its argument, or \<^verbatim>\<open>NULL\<close>.
  \<open>setlocale\<close> answers a request for a category with the resolved locale name or
  with \<^verbatim>\<open>NULL\<close>, and \<open>driver_returns\<close> tells of each role driver whether it gives
  control back.
\<close>

record platform =
  ident :: identity
  EXEC_BACKEND :: bool
  HAVE_LC_MESSAGES :: bool
  HAVE_MINIDUMP_TYPE :: bool
  USE_SSL :: bool
  MSVC1800_AMD64 :: bool
  IsWindows7SP1OrGreater :: bool
  WSAStartup :: int
  PG_BACKEND_VERSIONSTR :: string
  get_progname :: "string option \<Rightarrow> string"
  gettext :: "string \<Rightarrow> string"
  setlocale :: "category \<Rightarrow> string \<Rightarrow> (string \<rightharpoonup> string) \<Rightarrow> string option"
  get_user_name_or_exit :: "string \<Rightarrow> string option"
  strdup :: "string \<Rightarrow> string option"
  driver_returns :: "call \<Rightarrow> bool"

definition WIN32 :: "platform \<Rightarrow> bool" where
  "WIN32 P = (case ident P of Windows _ \<Rightarrow> True | Posix _ _ \<Rightarrow> False)"

record proc =
  status :: status
  environ :: "string \<rightharpoonup> string"
  perm_locale :: "category \<rightharpoonup> string"
  trace :: "event list"

definition process :: "(string \<rightharpoonup> string) \<Rightarrow> proc" where
  "process env = \<lparr>status = Running, environ = env, perm_locale = Map.empty, trace = []\<rparr>"

subsection \<open>Statements\<close>

definition emit :: "event \<Rightarrow> proc \<Rightarrow> proc" where
  "emit e s = s\<lparr>trace := trace s @ [e]\<rparr>"

definition exit :: "int \<Rightarrow> proc \<Rightarrow> proc" where
  "exit n s = s\<lparr>status := Exited n\<rparr>"

definition elog_FATAL :: "string \<Rightarrow> proc \<Rightarrow> proc" where
  "elog_FATAL msg s = s\<lparr>status := Fatal msg\<rparr>"

definition abort :: "proc \<Rightarrow> proc" where
  "abort s = s\<lparr>status := Aborted\<rparr>"

definition unsetenv :: "string \<Rightarrow> proc \<Rightarrow> proc" where
  "unsetenv name s = emit (Unsetenv name) (s\<lparr>environ := (environ s)(name := None)\<rparr>)"

text \<open>
  Statements in sequence: the next one runs only while the process is still
  running, so nothing follows an \<^verbatim>\<open>exit\<close>.
\<close>

fun run :: "(proc \<Rightarrow> proc) list \<Rightarrow> proc \<Rightarrow> proc" where
  "run [] s = s"
| "run (f # fs) s = (if status s = Running then run fs (f s) else s)"

text \<open>
  A call of a role driver. Every call site is commented \<^verbatim>\<open>does not return\<close>;
  \<open>driver_returns\<close> says whether a driver nevertheless gives control back, which
  is the only way the statements after the call can run.
\<close>

definition invoke :: "platform \<Rightarrow> call \<Rightarrow> proc \<Rightarrow> proc" where
  "invoke P c s =
     (if driver_returns P c then emit (Call c) s
      else (emit (Call c) s)\<lparr>status := Handed_over\<rparr>)"

subsection \<open>Formatting\<close>

text \<open>\<^verbatim>\<open>printf\<close> with one \<^verbatim>\<open>%s\<close> argument, and \<^verbatim>\<open>%d\<close> of an \<^verbatim>\<open>int\<close>.\<close>

fun printf_s :: "string \<Rightarrow> string \<Rightarrow> string" where
  "printf_s (c # d # cs) a =
     (if c = CHR ''%'' \<and> d = CHR ''s'' then a @ cs else c # printf_s (d # cs) a)"
| "printf_s cs a = cs"

fun nat_digits :: "nat \<Rightarrow> string" where
  "nat_digits n =
     (if n < 10 then [char_of (48 + n)]
      else nat_digits (n div 10) @ [char_of (48 + n mod 10)])"

declare nat_digits.simps [simp del]

definition decimal :: "int \<Rightarrow> string" where
  "decimal i = (if i < 0 then CHR ''-'' # nat_digits (nat (- i)) else nat_digits (nat i))"

subsection \<open>startup\_hacks\<close>

definition startup_hacks :: "platform \<Rightarrow> string \<Rightarrow> proc \<Rightarrow> proc" where
  "startup_hacks P progname =
     run ((if WIN32 P then
             [emit (Extern ''setvbuf''),
              emit (Extern ''setvbuf''),
              emit (Extern ''WSAStartup''),
              (\<lambda>s. if WSAStartup P \<noteq> 0
                    then exit 1 (emit (Stderr (printf_s ''%s: WSAStartup failed: '' progname
                                                 @ decimal (WSAStartup P) @ ''\<newline>'')) s)
                    else s),
              emit (Extern ''SetErrorMode'')]
             @ (if MSVC1800_AMD64 P \<and> \<not> IsWindows7SP1OrGreater P
                then [emit (Extern ''_set_FMA3_enable'')] else [])
           else [])
          @ [emit (Extern ''SpinLockInit'')])"

subsection \<open>init\_locale\<close>

text \<open>
  Modelled from the spec: \<^verbatim>\<open>pg_perm_setlocale\<close> is declared in
  \<^verbatim>\<open>utils/pg_locale.h\<close> and defined outside this source tree. The spec describes
  it as the attempt to adopt a locale for a category, which either fails
  (\<^verbatim>\<open>NULL\<close>) or leaves the category with a resolved locale string. Whether the
  attempt succeeds, and with which resolved string, is the platform's
  \<open>setlocale\<close>, which may read the environment (the request \<^verbatim>\<open>""\<close> means
  exactly that).
\<close>

definition pg_perm_setlocale :: "platform \<Rightarrow> category \<Rightarrow> string \<Rightarrow> proc \<Rightarrow> string option \<times> proc" where
  "pg_perm_setlocale P cat locale s =
     (case setlocale P cat locale (environ s) of
        None \<Rightarrow> (None, emit (Setlocale cat locale None) s)
      | Some r \<Rightarrow> (Some r, emit (Setlocale cat locale (Some r))
                            (s\<lparr>perm_locale := (perm_locale s)(cat \<mapsto> r)\<rparr>)))"

definition locale_failure :: "string \<Rightarrow> string \<Rightarrow> string" where
  "locale_failure locale categoryname =
     ''could not adopt '' @ [CHR 0x22] @ locale @ [CHR 0x22] @ '' locale nor C locale for ''
     @ categoryname"

definition init_locale :: "platform \<Rightarrow> string \<Rightarrow> category \<Rightarrow> string \<Rightarrow> proc \<Rightarrow> proc" where
  "init_locale P categoryname cat locale s =
     (case pg_perm_setlocale P cat locale s of
        (Some r, s1) \<Rightarrow> s1
      | (None, s1) \<Rightarrow>
          (case pg_perm_setlocale P cat ''C'' s1 of
             (Some r, s2) \<Rightarrow> s2
           | (None, s2) \<Rightarrow> elog_FATAL (locale_failure locale categoryname) s2))"

subsection \<open>help\<close>

text \<open>
  One string for each \<^verbatim>\<open>printf\<close> of \<^verbatim>\<open>help\<close>, in order; \<open>gettext\<close> is the
  macro \<^verbatim>\<open>_\<close>.
\<close>

definition help_text :: "platform \<Rightarrow> string \<Rightarrow> string list" where
  \<open>help_text P progname =
     [printf_s (gettext P ''%s is the PostgreSQL server.\<newline>\<newline>'') progname,
      printf_s (gettext P ''Usage:\<newline>  %s [OPTION]...\<newline>\<newline>'') progname,
      gettext P ''Options:\<newline>'',
      gettext P ''  -B NBUFFERS        number of shared buffers\<newline>'',
      gettext P ''  -c NAME=VALUE      set run-time parameter\<newline>'',
      gettext P ''  -C NAME            print value of run-time parameter, then exit\<newline>'',
      gettext P ''  -d 1-5             debugging level\<newline>'',
      gettext P ''  -D DATADIR         database directory\<newline>'',
      gettext P ''  -e                 use European date input format (DMY)\<newline>'',
      gettext P ''  -F                 turn fsync off\<newline>'',
      gettext P ''  -h HOSTNAME        host name or IP address to listen on\<newline>'',
      gettext P ''  -i                 enable TCP/IP connections\<newline>'',
      gettext P ''  -k DIRECTORY       Unix-domain socket location\<newline>'']
   @ (if USE_SSL P then
        [gettext P ''  -l                 enable SSL connections\<newline>''] else [])
   @ [gettext P ''  -N MAX-CONNECT     maximum number of allowed connections\<newline>'',
      gettext P ''  -o OPTIONS         pass "OPTIONS" to each server process (obsolete)\<newline>'',
      gettext P ''  -p PORT            port number to listen on\<newline>'',
      gettext P ''  -s                 show statistics after each query\<newline>'',
      gettext P ''  -S WORK-MEM        set amount of memory for sorts (in kB)\<newline>'',
      gettext P ''  -V, --version      output version information, then exit\<newline>'',
      gettext P ''  --NAME=VALUE       set run-time parameter\<newline>'',
      gettext P ''  --describe-config  describe configuration parameters, then exit\<newline>'',
      gettext P ''  -?, --help         show this help, then exit\<newline>'',
      gettext P ''\<newline>Developer options:\<newline>'',
      gettext P ''  -f s|i|n|m|h       forbid use of some plan types\<newline>'',
      gettext P ''  -n                 do not reinitialize shared memory after abnormal exit\<newline>'',
      gettext P ''  -O                 allow system table structure changes\<newline>'',
      gettext P ''  -P                 disable system indexes\<newline>'',
      gettext P ''  -t pa|pl|ex        show timings after each query\<newline>'',
      gettext P ''  -T                 send SIGSTOP to all backend processes if one dies\<newline>'',
      gettext P ''  -W NUM             wait NUM seconds to allow attach from a debugger\<newline>'',
      gettext P ''\<newline>Options for single-user mode:\<newline>'',
      gettext P ''  --single           selects single-user mode (must be first argument)\<newline>'',
      gettext P ''  DBNAME             database name (defaults to user name)\<newline>'',
      gettext P ''  -d 0-5             override debugging level\<newline>'',
      gettext P ''  -E                 echo statement before execution\<newline>'',
      gettext P ''  -j                 do not use newline as interactive query delimiter\<newline>'',
      gettext P ''  -r FILENAME        send stdout and stderr to given file\<newline>'',
      gettext P ''\<newline>Options for bootstrapping mode:\<newline>'',
      gettext P ''  --boot             selects bootstrapping mode (must be first argument)\<newline>'',
      gettext P ''  DBNAME             database name (mandatory argument in bootstrapping mode)\<newline>'',
      gettext P ''  -r FILENAME        send stdout and stderr to given file\<newline>'',
      gettext P ''  -x NUM             internal use\<newline>'',
      gettext P (''\<newline>Please read the documentation for the complete list of run-time\<newline>'' @
         ''configuration settings and how to set them on the command line or in\<newline>'' @
         ''the configuration file.\<newline>\<newline>'' @
         ''Report bugs to <pgsql-bugs@lists.postgresql.org>.\<newline>'')]\<close>

text \<open>The routine \<^verbatim>\<open>help\<close>; the name alone is reserved here.\<close>

definition print_help :: "platform \<Rightarrow> string \<Rightarrow> proc \<Rightarrow> proc" where
  "print_help P progname s = s\<lparr>trace := trace s @ map Stdout (help_text P progname)\<rparr>"

subsection \<open>check\_root\<close>

definition root_refused :: string where
  \<open>root_refused =
     ''"root" execution of the PostgreSQL server is not permitted.\<newline>'' @
     ''The server must be started under an unprivileged user ID to prevent\<newline>'' @
     ''possible system security compromise.  See the documentation for\<newline>'' @
     ''more information on how to properly start the server.\<newline>''\<close>

definition admin_refused :: string where
  \<open>admin_refused =
     ''Execution of PostgreSQL by a user with administrative permissions is not\<newline>'' @
     ''permitted.\<newline>'' @
     ''The server must be started under an unprivileged user ID to prevent\<newline>'' @
     ''possible system security compromises.  See the documentation for\<newline>'' @
     ''more information on how to properly start the server.\<newline>''\<close>

definition check_root :: "platform \<Rightarrow> string \<Rightarrow> proc \<Rightarrow> proc" where
  "check_root P progname s =
     (case ident P of
        Posix uid euid \<Rightarrow>
          if euid = 0 then exit 1 (emit (Stderr root_refused) (emit CheckRoot s))
          else if uid \<noteq> euid
          then exit 1 (emit (Stderr (printf_s ''%s: real and effective user IDs must match\<newline>''
                                       progname)) (emit CheckRoot s))
          else emit CheckRoot s
      | Windows admin \<Rightarrow>
          if admin then exit 1 (emit (Stderr admin_refused) (emit CheckRoot s))
          else emit CheckRoot s)"

subsection \<open>main\<close>

text \<open>
  \<^verbatim>\<open>argc\<close> is the length of \<open>argv\<close>. \<^verbatim>\<open>argv[0]\<close> is read without a test of
  \<^verbatim>\<open>argc\<close>; in an empty vector it is the terminating \<^verbatim>\<open>NULL\<close>. Every other
  element is read behind a test of \<^verbatim>\<open>argc\<close>.
\<close>

definition argv0 :: "string list \<Rightarrow> string option" where
  "argv0 argv = (case argv of [] \<Rightarrow> None | a # _ \<Rightarrow> Some a)"

definition progname :: "platform \<Rightarrow> string list \<Rightarrow> string" where
  "progname P argv = get_progname P (argv0 argv)"

text \<open>The value of the local \<^verbatim>\<open>do_check_root\<close> when the test of it is reached.\<close>

definition do_check_root :: "string list \<Rightarrow> bool" where
  "do_check_root argv =
     (if length argv > 1 then
        (if argv ! 1 = ''--describe-config'' then False
         else if length argv > 2 \<and> argv ! 1 = ''-C'' then False
         else True)
      else True)"

text \<open>
  The body of \<^verbatim>\<open>main\<close> in three consecutive parts. First, everything up to
  \<^verbatim>\<open>check_strxfrm_bug()\<close>: start-up hacks, the routines that bring up the process
  title, memory and message catalogue (they are not defined here and are recorded
  as calls that return; \<^verbatim>\<open>save_ps_display_args\<close> returns the same strings,
  possibly at a new address), and the locale set-up.
\<close>

definition getenv_or_empty :: "string \<Rightarrow> proc \<Rightarrow> string" where
  "getenv_or_empty name s =
     (case environ s name of Some env_locale \<Rightarrow> env_locale | None \<Rightarrow> [])"

definition main_startup :: "platform \<Rightarrow> string list \<Rightarrow> (proc \<Rightarrow> proc) list" where
  "main_startup P argv =
     (if WIN32 P \<and> HAVE_MINIDUMP_TYPE P
      then [emit (Extern ''pgwin32_install_crashdump_handler'')] else [])
     @ [startup_hacks P (progname P argv),
        emit (Extern ''save_ps_display_args''),
        emit (Extern ''MemoryContextInit''),
        emit (Extern ''set_pglocale_pgservice'')]
     @ (if WIN32 P then
          [(\<lambda>s. init_locale P ''LC_COLLATE'' LC_COLLATE (getenv_or_empty ''LC_COLLATE'' s) s),
           (\<lambda>s. init_locale P ''LC_CTYPE'' LC_CTYPE (getenv_or_empty ''LC_CTYPE'' s) s)]
        else
          [init_locale P ''LC_COLLATE'' LC_COLLATE [],
           init_locale P ''LC_CTYPE'' LC_CTYPE []])
     @ (if HAVE_LC_MESSAGES P then [init_locale P ''LC_MESSAGES'' LC_MESSAGES []] else [])
     @ [init_locale P ''LC_MONETARY'' LC_MONETARY ''C'',
        init_locale P ''LC_NUMERIC'' LC_NUMERIC ''C'',
        init_locale P ''LC_TIME'' LC_TIME ''C'',
        unsetenv ''LC_ALL'',
        emit (Extern ''check_strxfrm_bug'')]"

text \<open>Second, the standard options and the root check.\<close>

definition main_options :: "platform \<Rightarrow> string list \<Rightarrow> (proc \<Rightarrow> proc) list" where
  "main_options P argv =
     [(\<lambda>s. if length argv > 1 \<and> (argv ! 1 = ''--help'' \<or> argv ! 1 = ''-?'')
            then exit 0 (print_help P (progname P argv) s) else s),
      (\<lambda>s. if length argv > 1 \<and> (argv ! 1 = ''--version'' \<or> argv ! 1 = ''-V'')
            then exit 0 (emit (Stdout (PG_BACKEND_VERSIONSTR P)) s) else s),
      (\<lambda>s. if do_check_root argv then check_root P (progname P argv) s else s)]"

text \<open>
  Third, the dispatch on the first argument, and the \<^verbatim>\<open>abort\<close> behind it. The
  arguments of \<^verbatim>\<open>PostgresMain\<close> are evaluated before it is entered, so
  \<^verbatim>\<open>get_user_name_or_exit\<close> runs first. That routine is defined outside this
  source tree; when the lookup fails it ends the process, taken here with status
  1 like every other refusal on the way to a driver, and \<^verbatim>\<open>PostgresMain\<close> is
  never called.
\<close>

definition single_user :: "platform \<Rightarrow> string list \<Rightarrow> proc \<Rightarrow> proc" where
  "single_user P argv s =
     (case get_user_name_or_exit P (progname P argv) of
        None \<Rightarrow> exit 1 (emit (Extern ''get_user_name_or_exit'') s)
      | Some name \<Rightarrow>
          invoke P (PostgresMain argv None (strdup P name))
            (emit (Extern ''get_user_name_or_exit'') s))"

definition main_dispatch :: "platform \<Rightarrow> string list \<Rightarrow> (proc \<Rightarrow> proc) list" where
  "main_dispatch P argv =
     (if EXEC_BACKEND P then
        [(\<lambda>s. if length argv > 1 \<and> take 6 (argv ! 1) = ''--fork''
               then invoke P (SubPostmasterMain argv) s else s)]
      else [])
     @ (if WIN32 P then [emit (Extern ''pgwin32_signal_initialize'')] else [])
     @ [(\<lambda>s. if length argv > 1 \<and> argv ! 1 = ''--boot''
              then invoke P (AuxiliaryProcessMain argv) s
              else if length argv > 1 \<and> argv ! 1 = ''--describe-config''
              then invoke P GucInfoMain s
              else if length argv > 1 \<and> argv ! 1 = ''--single''
              then single_user P argv s
              else invoke P (PostmasterMain argv) s),
        abort]"

definition main :: "platform \<Rightarrow> string list \<Rightarrow> (string \<rightharpoonup> string) \<Rightarrow> proc" where
  "main P argv env =
     run (main_startup P argv @ main_options P argv @ main_dispatch P argv) (process env)"

subsection \<open>Observations on a trace\<close>

fun calls :: "event list \<Rightarrow> call list" where
  "calls [] = []"
| "calls (Call c # es) = c # calls es"
| "calls (_ # es) = calls es"

fun stdout :: "event list \<Rightarrow> string list" where
  "stdout [] = []"
| "stdout (Stdout x # es) = x # stdout es"
| "stdout (_ # es) = stdout es"

subsection \<open>Points of control inside main\<close>

text \<open>
  The state when \<^verbatim>\<open>main\<close> has finished its first part (it is \<open>Running\<close> exactly
  when control arrives at the test of \<^verbatim>\<open>argc\<close> for the standard options), and
  the state when it has finished the second (\<open>Running\<close> exactly when control
  arrives at the dispatch).
\<close>

definition started :: "platform \<Rightarrow> string list \<Rightarrow> (string \<rightharpoonup> string) \<Rightarrow> proc" where
  "started P argv env = run (main_startup P argv) (process env)"

definition at_dispatch :: "platform \<Rightarrow> string list \<Rightarrow> (string \<rightharpoonup> string) \<Rightarrow> proc" where
  "at_dispatch P argv env = run (main_options P argv) (started P argv env)"

text \<open>
  The locale categories \<^verbatim>\<open>main\<close> sets on this platform: \<^verbatim>\<open>LC_MESSAGES\<close> only
  where the platform defines it.
\<close>

definition categories :: "platform \<Rightarrow> category list" where
  "categories P =
     [LC_COLLATE, LC_CTYPE] @ (if HAVE_LC_MESSAGES P then [LC_MESSAGES] else [])
     @ [LC_MONETARY, LC_NUMERIC, LC_TIME]"

definition first_arg :: "string list \<Rightarrow> string option" where
  "first_arg argv = (if 1 < length argv then Some (argv ! 1) else None)"

text \<open>
  Names for what the dispatch code of \<^verbatim>\<open>main\<close> computes, used to state lemmas
  about it: whether the \<^verbatim>\<open>--fork\<close> test succeeds, whether the \<^verbatim>\<open>--single\<close>
  branch ends in the user-name lookup, which driver the \<^verbatim>\<open>if\<close>/\<^verbatim>\<open>else\<close> chain
  calls if any, the drivers called in order, and when \<^verbatim>\<open>check_root\<close> exits.
\<close>

definition fork_taken :: "platform \<Rightarrow> string list \<Rightarrow> bool" where
  "fork_taken P argv = (EXEC_BACKEND P \<and> length argv > 1 \<and> take 6 (argv ! 1) = ''--fork'')"

definition lookup_fails :: "platform \<Rightarrow> string list \<Rightarrow> bool" where
  "lookup_fails P argv =
     (length argv > 1 \<and> argv ! 1 = ''--single''
      \<and> get_user_name_or_exit P (progname P argv) = None)"

definition chain_call :: "platform \<Rightarrow> string list \<Rightarrow> call list" where
  "chain_call P argv =
     (if length argv > 1 \<and> argv ! 1 = ''--boot'' then [AuxiliaryProcessMain argv]
      else if length argv > 1 \<and> argv ! 1 = ''--describe-config'' then [GucInfoMain]
      else if length argv > 1 \<and> argv ! 1 = ''--single''
      then (case get_user_name_or_exit P (progname P argv) of
              None \<Rightarrow> [] | Some name \<Rightarrow> [PostgresMain argv None (strdup P name)])
      else [PostmasterMain argv])"

definition dispatched :: "platform \<Rightarrow> string list \<Rightarrow> call list" where
  "dispatched P argv =
     (if fork_taken P argv
      then SubPostmasterMain argv #
           (if driver_returns P (SubPostmasterMain argv) then chain_call P argv else [])
      else chain_call P argv)"

definition refuses :: "identity \<Rightarrow> bool" where
  "refuses i = (case i of Posix uid euid \<Rightarrow> euid = 0 \<or> uid \<noteq> euid | Windows admin \<Rightarrow> admin)"

definition quiet :: "proc \<Rightarrow> bool" where
  "quiet s = (stdout (trace s) = [] \<and> calls (trace s) = [] \<and> CheckRoot \<notin> set (trace s))"

subsection \<open>The mode classifier as the specification words it\<close>

text \<open>
  The specification describes a classifier: the first argument is compared with
  a fixed ordered list of tokens, the first match wins, and anything else is the
  supervisor. The forked-worker prefix counts only on builds that re-execute the
  binary. \<open>role_of\<close> is the specification's table from role driver to mode.
  Both are compared with \<open>main\<close> below; neither is used to define it.
\<close>

datatype ExecutionMode =
  ShowHelp | ShowVersion | DescribeConfig | ForkedWorker | BootstrapLoad | SingleSession | Supervisor

definition Mode_Classifier :: "bool \<Rightarrow> string list \<Rightarrow> ExecutionMode" where
  "Mode_Classifier forking argv =
     (case first_arg argv of
        None \<Rightarrow> Supervisor
      | Some a \<Rightarrow>
          if a = ''--help'' \<or> a = ''-?'' then ShowHelp
          else if a = ''--version'' \<or> a = ''-V'' then ShowVersion
          else if forking \<and> prefix ''--fork'' a then ForkedWorker
          else if a = ''--boot'' then BootstrapLoad
          else if a = ''--describe-config'' then DescribeConfig
          else if a = ''--single'' then SingleSession
          else Supervisor)"

fun role_of :: "call \<Rightarrow> ExecutionMode" where
  "role_of (SubPostmasterMain _) = ForkedWorker"
| "role_of (AuxiliaryProcessMain _) = BootstrapLoad"
| "role_of GucInfoMain = DescribeConfig"
| "role_of (PostgresMain _ _ _) = SingleSession"
| "role_of (PostmasterMain _) = Supervisor"

subsection \<open>Example platforms\<close>

text \<open>
  An ordinary Unix build run by an unprivileged user; the same run by root; the
  same as a set-uid program started by root; a build with \<^verbatim>\<open>EXEC_BACKEND\<close> whose
  \<^verbatim>\<open>SubPostmasterMain\<close> gives control back; a system on which no locale can be
  adopted; and one on which the user has no name to be looked up.
\<close>

definition linux_user :: platform where
  "linux_user = \<lparr>ident = Posix 1000 1000, EXEC_BACKEND = False, HAVE_LC_MESSAGES = True,
     HAVE_MINIDUMP_TYPE = False, USE_SSL = True, MSVC1800_AMD64 = False,
     IsWindows7SP1OrGreater = True, WSAStartup = 0,
     PG_BACKEND_VERSIONSTR = ''postgres (PostgreSQL) 12.0\<newline>'',
     get_progname = (\<lambda>a. ''postgres''), gettext = (\<lambda>m. m),
     setlocale = (\<lambda>c l e. if l = [] then e ''LANG'' else if l = ''C'' then Some ''C'' else None),
     get_user_name_or_exit = (\<lambda>p. Some ''alice''), strdup = Some,
     driver_returns = (\<lambda>c. False)\<rparr>"

definition linux_root :: platform where
  "linux_root = linux_user\<lparr>ident := Posix 0 0\<rparr>"

definition setuid_user :: platform where
  "setuid_user = linux_user\<lparr>ident := Posix 0 1000\<rparr>"

definition forking_build :: platform where
  "forking_build = linux_user\<lparr>EXEC_BACKEND := True,
     driver_returns := (\<lambda>c. case c of SubPostmasterMain _ \<Rightarrow> True | _ \<Rightarrow> False)\<rparr>"

definition no_locale :: platform where
  "no_locale = linux_user\<lparr>setlocale := (\<lambda>c l e. None)\<rparr>"

definition no_passwd :: platform where
  "no_passwd = linux_user\<lparr>get_user_name_or_exit := (\<lambda>p. None)\<rparr>"

definition german :: "string \<rightharpoonup> string" where
  "german = [''LANG'' \<mapsto> ''de_DE.UTF-8'', ''LC_ALL'' \<mapsto> ''de_DE.UTF-8'']"

subsection \<open>Notions used in the lemmas on traces\<close>

text \<open>
  An event respects the pinning of the monetary, numeric and time categories; a
  statement only appends events of a given kind to the trace; a pinned category
  has been set by a request for \<^verbatim>\<open>"C"\<close>; and the ways the start-up part of
  \<^verbatim>\<open>main\<close> can end the process.
\<close>

definition pinned_ok :: "event \<Rightarrow> bool" where
  "pinned_ok e = (case e of
      Setlocale c l r \<Rightarrow> (c = LC_MONETARY \<or> c = LC_NUMERIC \<or> c = LC_TIME) \<longrightarrow> l = ''C''
    | _ \<Rightarrow> True)"

definition appends :: "(event \<Rightarrow> bool) \<Rightarrow> (proc \<Rightarrow> proc) \<Rightarrow> bool" where
  "appends R f = (\<forall>t. \<exists>es. trace (f t) = trace t @ es \<and> (\<forall>e\<in>set es. R e))"

definition pinned_set :: "category \<Rightarrow> proc \<Rightarrow> bool" where
  "pinned_set c t = (\<exists>r. perm_locale t c = Some r \<and> Setlocale c ''C'' (Some r) \<in> set (trace t))"

definition ended_in_startup :: "platform \<Rightarrow> status \<Rightarrow> bool" where
  "ended_in_startup P st =
     ((\<exists>m. st = Fatal m) \<or> (WIN32 P \<and> WSAStartup P \<noteq> 0 \<and> st = Exited 1))"

definition no_lookup :: "proc \<Rightarrow> bool" where
  "no_lookup s = (Extern ''get_user_name_or_exit'' \<notin> set (trace s))"

named_theorems frame

section \<open>Lemmas\<close>

lemma run_stopped: "status s \<noteq> Running \<Longrightarrow> run fs s = s"
  by (cases fs) simp_all

lemma run_append: "run (fs @ gs) s = run gs (run fs s)"
  by (induction fs arbitrary: s) (simp_all add: run_stopped)

lemma main_parts:
  "main P argv env = run (main_dispatch P argv) (run (main_options P argv) (started P argv env))"
  by (simp add: main_def started_def run_append)

lemma calls_append: "calls (xs @ ys) = calls xs @ calls ys"
  by (induction xs rule: calls.induct) simp_all

lemma stdout_append: "stdout (xs @ ys) = stdout xs @ stdout ys"
  by (induction xs rule: stdout.induct) simp_all

lemma stdout_map_Stdout: "stdout (map Stdout xs) = xs"
  by (induction xs) simp_all

lemma calls_map_Stdout: "calls (map Stdout xs) = []"
  by (induction xs) simp_all

lemma run_invariant:
  assumes "\<And>f s. f \<in> set fs \<Longrightarrow> Q s \<Longrightarrow> Q (f s)" and "Q s"
  shows "Q (run fs s)"
  using assms by (induction fs arbitrary: s) auto

lemma quiet_emit: "quiet s \<Longrightarrow> e \<noteq> CheckRoot \<Longrightarrow> stdout [e] = [] \<Longrightarrow> calls [e] = [] \<Longrightarrow> quiet (emit e s)"
  by (simp add: quiet_def emit_def stdout_append calls_append)

lemma quiet_init_locale: "quiet s \<Longrightarrow> quiet (init_locale P n c l s)"
  by (auto simp: init_locale_def pg_perm_setlocale_def quiet_def emit_def elog_FATAL_def
      stdout_append calls_append split: option.splits)

lemma quiet_startup_hacks: "quiet s \<Longrightarrow> quiet (startup_hacks P n s)"
  unfolding startup_hacks_def
  by (rule run_invariant) (auto simp: quiet_def emit_def exit_def stdout_append calls_append split: if_splits)

lemma quiet_started: "quiet (started P argv env)"
  unfolding started_def
proof (rule run_invariant)
  show "quiet (process env)" by (simp add: quiet_def process_def)
next
  fix f s assume "f \<in> set (main_startup P argv)" and "quiet s"
  then show "quiet (f s)"
    by (auto simp: main_startup_def quiet_init_locale quiet_startup_hacks quiet_emit unsetenv_def
        split: if_splits) (auto simp: quiet_def emit_def stdout_append calls_append)
qed

lemma run_Cons_Running:
  "status (run (f # fs) s) = Running \<Longrightarrow> status (f s) = Running \<and> status (run fs (f s)) = Running"
  by (cases "status (f s) = Running") (auto simp: run_stopped split: if_splits)

lemma run_establish:
  assumes "status (run fs s) = Running" and "f \<in> set fs"
    and est: "\<And>t. status (f t) = Running \<Longrightarrow> Q (f t)"
    and pres: "\<And>g t. g \<in> set fs \<Longrightarrow> Q t \<Longrightarrow> Q (g t)"
  shows "Q (run fs s)"
  using assms(1,2) pres
proof (induction fs arbitrary: s)
  case Nil
  then show ?case by simp
next
  case (Cons g gs)
  from Cons.prems(1) have st: "status s = Running"
    by (auto split: if_splits)
  from Cons.prems(1) have g: "status (g s) = Running" and rest: "status (run gs (g s)) = Running"
    using run_Cons_Running by blast+
  have eq: "run (g # gs) s = run gs (g s)" using st by simp
  show ?case
  proof (cases "f = g")
    case True
    then have "Q (g s)" using est g by simp
    then have "Q (run gs (g s))"
      by (rule run_invariant[rotated]) (simp add: Cons.prems(3))
    then show ?thesis by (simp only: eq)
  next
    case False
    then have "f \<in> set gs" using Cons.prems(2) by simp
    then have "Q (run gs (g s))"
      using Cons.IH[OF rest] Cons.prems(3) by simp
    then show ?thesis by (simp only: eq)
  qed
qed

lemma init_locale_cases:
  "init_locale P n c l s =
     (case setlocale P c l (environ s) of
        Some r \<Rightarrow> s\<lparr>perm_locale := (perm_locale s)(c \<mapsto> r),
                     trace := trace s @ [Setlocale c l (Some r)]\<rparr>
      | None \<Rightarrow>
         (case setlocale P c ''C'' (environ s) of
            Some r \<Rightarrow> s\<lparr>perm_locale := (perm_locale s)(c \<mapsto> r),
                         trace := trace s @ [Setlocale c l None, Setlocale c ''C'' (Some r)]\<rparr>
          | None \<Rightarrow> s\<lparr>status := Fatal (locale_failure l n),
                       trace := trace s @ [Setlocale c l None, Setlocale c ''C'' None]\<rparr>))"
  by (simp add: init_locale_def pg_perm_setlocale_def emit_def elog_FATAL_def split: option.splits)

lemma init_locale_environ: "environ (init_locale P n c l s) = environ s"
  by (simp add: init_locale_cases split: option.splits)

lemma init_locale_resolved:
  "status (init_locale P n c l s) = Running \<Longrightarrow> perm_locale (init_locale P n c l s) c \<noteq> None"
  by (simp add: init_locale_cases split: option.splits)

lemma init_locale_keeps:
  "perm_locale s c' = Some y \<Longrightarrow> \<exists>z. perm_locale (init_locale P n c l s) c' = Some z"
  by (simp add: init_locale_cases split: option.splits)

lemma startup_hacks_keeps:
  "perm_locale (startup_hacks P n s) = perm_locale s"
  "environ (startup_hacks P n s) = environ s"
  unfolding startup_hacks_def
  by (rule run_invariant[where Q="\<lambda>t. perm_locale t = perm_locale s"]
           run_invariant[where Q="\<lambda>t. environ t = environ s"],
      auto simp: emit_def exit_def split: if_splits)+

lemma startup_split:
  "main_startup P argv =
     butlast (butlast (main_startup P argv))
     @ [unsetenv ''LC_ALL'', emit (Extern ''check_strxfrm_bug'')]"
  by (simp add: main_startup_def butlast_append)

lemma in_front: "f \<in> set (butlast (butlast (main_startup P argv))) \<Longrightarrow> f \<in> set (main_startup P argv)"
  by (metis in_set_butlastD)

lemma init_step_in_front:
  assumes c: "c \<in> set (categories P)"
  shows "\<exists>f \<in> set (butlast (butlast (main_startup P argv))). \<forall>t. \<exists>n l. f t = init_locale P n c l t"
proof -
  let ?front = "butlast (butlast (main_startup P argv))"
  have *: "g \<in> set ?front \<Longrightarrow> \<forall>t. g t = init_locale P n c (l t) t \<Longrightarrow>
       \<exists>f \<in> set ?front. \<forall>t. \<exists>n l. f t = init_locale P n c l t" for g n l
    by blast
  show ?thesis
  proof (cases c)
    case LC_COLLATE
    show ?thesis
      by (rule *[where g="if WIN32 P
            then (\<lambda>s. init_locale P ''LC_COLLATE'' LC_COLLATE (getenv_or_empty ''LC_COLLATE'' s) s)
            else init_locale P ''LC_COLLATE'' LC_COLLATE []" and n="''LC_COLLATE''"
            and l="\<lambda>t. if WIN32 P then getenv_or_empty ''LC_COLLATE'' t else []"])
         (simp_all add: main_startup_def butlast_append LC_COLLATE)
  next
    case LC_CTYPE
    show ?thesis
      by (rule *[where g="if WIN32 P
            then (\<lambda>s. init_locale P ''LC_CTYPE'' LC_CTYPE (getenv_or_empty ''LC_CTYPE'' s) s)
            else init_locale P ''LC_CTYPE'' LC_CTYPE []" and n="''LC_CTYPE''"
            and l="\<lambda>t. if WIN32 P then getenv_or_empty ''LC_CTYPE'' t else []"])
         (simp_all add: main_startup_def butlast_append LC_CTYPE)
  next
    case LC_MESSAGES
    with c have "HAVE_LC_MESSAGES P" by (simp add: categories_def split: if_splits)
    then show ?thesis
      by (intro *[where g="init_locale P ''LC_MESSAGES'' LC_MESSAGES []" and n="''LC_MESSAGES''"
            and l="\<lambda>t. []"])
         (simp_all add: main_startup_def butlast_append LC_MESSAGES)
  next
    case LC_MONETARY
    show ?thesis
      by (rule *[where g="init_locale P ''LC_MONETARY'' LC_MONETARY ''C''" and n="''LC_MONETARY''"
            and l="\<lambda>t. ''C''"])
         (simp_all add: main_startup_def butlast_append LC_MONETARY)
  next
    case LC_NUMERIC
    show ?thesis
      by (rule *[where g="init_locale P ''LC_NUMERIC'' LC_NUMERIC ''C''" and n="''LC_NUMERIC''"
            and l="\<lambda>t. ''C''"])
         (simp_all add: main_startup_def butlast_append LC_NUMERIC)
  next
    case LC_TIME
    show ?thesis
      by (rule *[where g="init_locale P ''LC_TIME'' LC_TIME ''C''" and n="''LC_TIME''"
            and l="\<lambda>t. ''C''"])
         (simp_all add: main_startup_def butlast_append LC_TIME)
  qed
qed

lemma init_step_in_startup:
  "c \<in> set (categories P) \<Longrightarrow>
   \<exists>f \<in> set (main_startup P argv). \<forall>t. \<exists>n l. f t = init_locale P n c l t"
  using init_step_in_front[of c P argv] in_front[of _ P argv] by blast

lemma startup_keeps_locale:
  "g \<in> set (main_startup P argv) \<Longrightarrow> perm_locale (t::proc) c \<noteq> None \<Longrightarrow> perm_locale (g t) c \<noteq> None"
  by (auto simp: main_startup_def startup_hacks_keeps emit_def unsetenv_def
      intro: init_locale_keeps split: if_splits)

lemma started_resolved:
  assumes "status (started P argv env) = Running" and "c \<in> set (categories P)"
  shows "perm_locale (started P argv env) c \<noteq> None"
proof -
  from init_step_in_startup[OF assms(2)] obtain f where
    f: "f \<in> set (main_startup P argv)" and fi: "\<And>t. \<exists>n l. f t = init_locale P n c l t"
    by blast
  show ?thesis
    unfolding started_def
  proof (rule run_establish[where f=f and Q="\<lambda>t. perm_locale t c \<noteq> None"])
    show "status (run (main_startup P argv) (process env)) = Running"
      using assms(1) by (simp add: started_def)
    show "f \<in> set (main_startup P argv)" by (rule f)
  next
    fix t assume "status (f t) = Running"
    then show "perm_locale (f t) c \<noteq> None"
      using fi[of t] init_locale_resolved by metis
  next
    fix g and t :: proc
    assume "g \<in> set (main_startup P argv)" "perm_locale t c \<noteq> None"
    then show "perm_locale (g t) c \<noteq> None" by (rule startup_keeps_locale)
  qed
qed

lemma emit_frame [frame]:
  "status (emit e s) = status s" "environ (emit e s) = environ s"
  "perm_locale (emit e s) = perm_locale s" "trace (emit e s) = trace s @ [e]"
  by (simp_all add: emit_def)

lemma exit_frame [frame]:
  "status (exit n s) = Exited n" "environ (exit n s) = environ s"
  "perm_locale (exit n s) = perm_locale s" "trace (exit n s) = trace s"
  by (simp_all add: exit_def)

lemma abort_frame [frame]:
  "status (abort s) = Aborted" "environ (abort s) = environ s"
  "perm_locale (abort s) = perm_locale s" "trace (abort s) = trace s"
  by (simp_all add: abort_def)

lemma print_help_frame [frame]:
  "status (print_help P n s) = status s" "environ (print_help P n s) = environ s"
  "perm_locale (print_help P n s) = perm_locale s"
  "trace (print_help P n s) = trace s @ map Stdout (help_text P n)"
  by (simp_all add: print_help_def)

lemma invoke_frame [frame]:
  "status (invoke P c s) = (if driver_returns P c then status s else Handed_over)"
  "environ (invoke P c s) = environ s"
  "perm_locale (invoke P c s) = perm_locale s" "trace (invoke P c s) = trace s @ [Call c]"
  by (simp_all add: invoke_def emit_def)

lemma check_root_frame [frame]:
  "status (check_root P n s) = (if refuses (ident P) then Exited 1 else status s)"
  "environ (check_root P n s) = environ s"
  "perm_locale (check_root P n s) = perm_locale s"
  "calls (trace (check_root P n s)) = calls (trace s)"
  "stdout (trace (check_root P n s)) = stdout (trace s)"
  "CheckRoot \<in> set (trace (check_root P n s))"
  by (simp_all add: check_root_def refuses_def emit_def exit_def calls_append stdout_append
      split: identity.splits)

lemma options_run:
  "status s = Running \<Longrightarrow>
   run (main_options P argv) s =
     (if length argv > 1 \<and> (argv ! 1 = ''--help'' \<or> argv ! 1 = ''-?'')
      then exit 0 (print_help P (progname P argv) s)
      else if length argv > 1 \<and> (argv ! 1 = ''--version'' \<or> argv ! 1 = ''-V'')
      then exit 0 (emit (Stdout (PG_BACKEND_VERSIONSTR P)) s)
      else if do_check_root argv then check_root P (progname P argv) s else s)"
  by (auto simp add: main_options_def frame)

lemma single_user_frame [frame]:
  "status (single_user P argv s) =
     (case get_user_name_or_exit P (progname P argv) of
        None \<Rightarrow> Exited 1
      | Some name \<Rightarrow>
          if driver_returns P (PostgresMain argv None (strdup P name)) then status s
          else Handed_over)"
  "environ (single_user P argv s) = environ s"
  "perm_locale (single_user P argv s) = perm_locale s"
  "trace (single_user P argv s) =
     trace s @ Extern ''get_user_name_or_exit''
       # (case get_user_name_or_exit P (progname P argv) of
            None \<Rightarrow> [] | Some name \<Rightarrow> [Call (PostgresMain argv None (strdup P name))])"
  by (simp_all add: single_user_def frame split: option.splits)

lemma lookup_fails_no_fork: "lookup_fails P argv \<Longrightarrow> \<not> fork_taken P argv"
  by (auto simp: lookup_fails_def fork_taken_def)

lemma dispatched_empty: "dispatched P argv = [] \<longleftrightarrow> lookup_fails P argv"
  by (auto simp: dispatched_def chain_call_def lookup_fails_def fork_taken_def
      split: option.splits)

lemma dispatch_calls:
  assumes "status s = Running"
  shows "calls (trace (run (main_dispatch P argv) s)) = calls (trace s) @ dispatched P argv"
    and "status (run (main_dispatch P argv) s) =
           (if lookup_fails P argv then Exited 1
            else if driver_returns P (last (dispatched P argv)) then Aborted else Handed_over)"
    and "stdout (trace (run (main_dispatch P argv) s)) = stdout (trace s)"
    and "CheckRoot \<in> set (trace (run (main_dispatch P argv) s)) \<longleftrightarrow> CheckRoot \<in> set (trace s)"
    and "length argv > 1 \<and> argv ! 1 = ''--single'' \<Longrightarrow>
         Extern ''get_user_name_or_exit'' \<in> set (trace (run (main_dispatch P argv) s))"
  using assms
  by (simp_all add: main_dispatch_def dispatched_def fork_taken_def chain_call_def
      lookup_fails_def frame calls_append stdout_append split: option.splits)

lemmas model_defs = started_def at_dispatch_def main_def main_startup_def main_options_def
  main_dispatch_def startup_hacks_def init_locale_def pg_perm_setlocale_def emit_def exit_def
  elog_FATAL_def abort_def unsetenv_def invoke_def check_root_def print_help_def process_def
  WIN32_def progname_def argv0_def do_check_root_def getenv_or_empty_def categories_def
  first_arg_def

lemma started_linux_user: "status (started linux_user argv german) = Running"
  by (simp add: model_defs linux_user_def german_def)

lemma prefix_fork: "prefix ''--fork'' a \<longleftrightarrow> take 6 a = ''--fork''"
proof
  assume "prefix ''--fork'' a"
  then obtain b where "a = ''--fork'' @ b" by (auto simp: prefix_def)
  then show "take 6 a = ''--fork''" by simp
next
  assume "take 6 a = ''--fork''"
  then have "a = ''--fork'' @ drop 6 a" by (metis append_take_drop_id)
  then show "prefix ''--fork'' a" by (metis prefixI)
qed

lemma at_dispatch_Running:
  "status (at_dispatch P argv env) = Running \<Longrightarrow> status (started P argv env) = Running"
  unfolding at_dispatch_def by (metis run_stopped)

lemma main_at_dispatch: "main P argv env = run (main_dispatch P argv) (at_dispatch P argv env)"
  by (simp add: main_parts at_dispatch_def)

lemma main_stopped: "status (at_dispatch P argv env) \<noteq> Running \<Longrightarrow> main P argv env = at_dispatch P argv env"
  by (simp add: main_at_dispatch run_stopped)

lemma at_dispatch_cases:
  assumes "status (started P argv env) = Running"
  shows "at_dispatch P argv env =
     (if length argv > 1 \<and> (argv ! 1 = ''--help'' \<or> argv ! 1 = ''-?'')
      then exit 0 (print_help P (progname P argv) (started P argv env))
      else if length argv > 1 \<and> (argv ! 1 = ''--version'' \<or> argv ! 1 = ''-V'')
      then exit 0 (emit (Stdout (PG_BACKEND_VERSIONSTR P)) (started P argv env))
      else if do_check_root argv then check_root P (progname P argv) (started P argv env)
      else started P argv env)"
  unfolding at_dispatch_def using assms by (rule options_run)

lemma started_quiet:
  "stdout (trace (started P argv env)) = []" "calls (trace (started P argv env)) = []"
  "CheckRoot \<notin> set (trace (started P argv env))"
  using quiet_started[of P argv env] by (simp_all add: quiet_def)

lemmas platform_defs = linux_user_def linux_root_def setuid_user_def forking_build_def
  no_locale_def no_passwd_def german_def

lemma main_cases:
  assumes "status (started P argv env) = Running"
  shows "main P argv env =
     (if length argv > 1 \<and> (argv ! 1 = ''--help'' \<or> argv ! 1 = ''-?'')
      then exit 0 (print_help P (progname P argv) (started P argv env))
      else if length argv > 1 \<and> (argv ! 1 = ''--version'' \<or> argv ! 1 = ''-V'')
      then exit 0 (emit (Stdout (PG_BACKEND_VERSIONSTR P)) (started P argv env))
      else if do_check_root argv \<and> refuses (ident P)
      then check_root P (progname P argv) (started P argv env)
      else run (main_dispatch P argv) (at_dispatch P argv env))"
  using assms
  by (auto simp add: main_at_dispatch at_dispatch_cases run_stopped frame)

lemma options_dispatch_keep:
  "perm_locale (run (main_options P argv @ main_dispatch P argv) s) = perm_locale s"
  "environ (run (main_options P argv @ main_dispatch P argv) s) = environ s"
  by (rule run_invariant[where Q="\<lambda>t. perm_locale t = perm_locale s"]
           run_invariant[where Q="\<lambda>t. environ t = environ s"],
      auto simp: main_options_def main_dispatch_def frame)+

lemma main_keeps:
  "perm_locale (main P argv env) = perm_locale (started P argv env)"
  "environ (main P argv env) = environ (started P argv env)"
  using options_dispatch_keep[of P argv "started P argv env"]
  by (simp_all add: main_def started_def run_append)

lemma locale_failure_names: "sublist l (locale_failure l n)" "suffix n (locale_failure l n)"
  unfolding locale_failure_def
  by (metis sublist_appendI append.assoc, metis suffixI append.assoc)

lemma linux_user_fields:
  "ident linux_user = Posix 1000 1000" "EXEC_BACKEND linux_user = False"
  "HAVE_LC_MESSAGES linux_user = True" "driver_returns linux_user c = False"
  "get_user_name_or_exit linux_user p = Some ''alice''" "get_progname linux_user a = ''postgres''"
  "strdup linux_user x = Some x"
  "PG_BACKEND_VERSIONSTR linux_user = ''postgres (PostgreSQL) 12.0\<newline>''"
  by (simp_all add: linux_user_def)

lemma at_dispatch_calls: "calls (trace (at_dispatch P argv env)) = []"
proof (cases "status (started P argv env) = Running")
  case True
  then show ?thesis
    by (simp add: at_dispatch_cases frame started_quiet calls_append calls_map_Stdout)
next
  case False
  then show ?thesis by (simp add: at_dispatch_def run_stopped started_quiet)
qed

lemma at_dispatch_Running_iff:
  "status (at_dispatch P argv env) = Running \<longleftrightarrow>
     status (started P argv env) = Running
   \<and> \<not> (1 < length argv \<and> (argv ! 1 = ''--help'' \<or> argv ! 1 = ''-?''))
   \<and> \<not> (1 < length argv \<and> (argv ! 1 = ''--version'' \<or> argv ! 1 = ''-V''))
   \<and> \<not> (do_check_root argv \<and> refuses (ident P))"
proof (cases "status (started P argv env) = Running")
  case True
  then show ?thesis by (simp add: at_dispatch_cases frame)
next
  case False
  then show ?thesis using at_dispatch_Running by blast
qed

lemma at_dispatch_CheckRoot:
  "status (at_dispatch P argv env) = Running \<Longrightarrow>
   CheckRoot \<in> set (trace (at_dispatch P argv env)) \<longleftrightarrow> do_check_root argv"
  by (frule at_dispatch_Running)
     (auto simp: at_dispatch_Running_iff at_dispatch_cases frame started_quiet)

lemma main_calls:
  "calls (trace (main P argv env)) =
     (if status (at_dispatch P argv env) = Running then dispatched P argv else [])"
  by (simp add: main_at_dispatch dispatch_calls at_dispatch_calls run_stopped)

lemma main_status:
  "status (at_dispatch P argv env) = Running \<Longrightarrow>
   status (main P argv env) =
     (if lookup_fails P argv then Exited 1
      else if driver_returns P (last (dispatched P argv)) then Aborted else Handed_over)"
  by (simp add: main_at_dispatch dispatch_calls)

lemma main_lookup_called:
  "status (at_dispatch P argv env) = Running \<Longrightarrow> length argv > 1 \<and> argv ! 1 = ''--single'' \<Longrightarrow>
   Extern ''get_user_name_or_exit'' \<in> set (trace (main P argv env))"
  by (simp add: main_at_dispatch dispatch_calls(5))

lemma main_CheckRoot:
  "status (at_dispatch P argv env) = Running \<Longrightarrow>
   CheckRoot \<in> set (trace (main P argv env)) \<longleftrightarrow> do_check_root argv"
  by (simp add: main_at_dispatch dispatch_calls at_dispatch_CheckRoot)

lemma started_examples:
  "status (started linux_root argv german) = Running"
  "status (started setuid_user argv german) = Running"
  "status (started forking_build argv german) = Running"
  by (simp_all add: model_defs platform_defs)

lemma linux_root_fields:
  "ident linux_root = Posix 0 0" "EXEC_BACKEND linux_root = False"
  by (simp_all add: linux_root_def linux_user_def)

lemma forking_build_fields:
  "ident forking_build = Posix 1000 1000" "EXEC_BACKEND forking_build = True"
  "driver_returns forking_build (SubPostmasterMain a) = True"
  "driver_returns forking_build (PostmasterMain a) = False"
  by (simp_all add: forking_build_def linux_user_def)

lemma main_CheckRoot_iff:
  assumes "status (started P argv env) = Running"
  shows "CheckRoot \<in> set (trace (main P argv env)) \<longleftrightarrow>
           \<not> (1 < length argv \<and> (argv ! 1 = ''--help'' \<or> argv ! 1 = ''-?''))
         \<and> \<not> (1 < length argv \<and> (argv ! 1 = ''--version'' \<or> argv ! 1 = ''-V''))
         \<and> do_check_root argv"
proof (cases "status (at_dispatch P argv env) = Running")
  case True
  then show ?thesis by (simp add: main_CheckRoot at_dispatch_Running_iff)
next
  case False
  then show ?thesis
    using assms
    by (auto simp: main_stopped at_dispatch_cases at_dispatch_Running_iff frame started_quiet)
qed

lemma Mode_Classifier_first_arg:
  "first_arg argv' = first_arg argv \<Longrightarrow> Mode_Classifier forking argv' = Mode_Classifier forking argv"
  by (simp add: Mode_Classifier_def)

lemma role_of_chain_call:
  "\<not> lookup_fails P argv \<Longrightarrow>
   map role_of (chain_call P argv) =
     [case first_arg argv of
        None \<Rightarrow> Supervisor
      | Some a \<Rightarrow> if a = ''--boot'' then BootstrapLoad
                  else if a = ''--describe-config'' then DescribeConfig
                  else if a = ''--single'' then SingleSession else Supervisor]"
  by (auto simp: chain_call_def first_arg_def lookup_fails_def split: option.splits)

lemma role_of_first_dispatched:
  "\<not> lookup_fails P argv \<Longrightarrow>
   map role_of (take (Suc 0) (dispatched P argv)) =
     (if fork_taken P argv then [ForkedWorker] else map role_of (chain_call P argv))"
  by (auto simp: dispatched_def chain_call_def lookup_fails_def split: option.splits)

lemma fork_taken_first_arg:
  "fork_taken P argv \<longleftrightarrow> EXEC_BACKEND P \<and> (\<exists>a. first_arg argv = Some a \<and> prefix ''--fork'' a)"
  by (simp add: fork_taken_def first_arg_def prefix_fork)

lemma not_prefix_fork:
  "\<not> prefix ''--fork'' ''--help''" "\<not> prefix ''--fork'' ''-?''"
  "\<not> prefix ''--fork'' ''--version''" "\<not> prefix ''--fork'' ''-V''"
  by (simp_all add: prefix_fork)

lemma first_call_role:
  assumes "status (at_dispatch P argv env) = Running" and nf: "\<not> lookup_fails P argv"
  shows "map role_of (take 1 (calls (trace (main P argv env)))) = [Mode_Classifier (EXEC_BACKEND P) argv]"
proof -
  from assms have nh: "first_arg argv \<noteq> Some ''--help''" "first_arg argv \<noteq> Some ''-?''"
    "first_arg argv \<noteq> Some ''--version''" "first_arg argv \<noteq> Some ''-V''"
    by (auto simp: at_dispatch_Running_iff first_arg_def)
  show ?thesis
  proof (cases "first_arg argv")
    case None
    then show ?thesis
      using assms
      by (simp add: main_calls role_of_first_dispatched[OF nf] fork_taken_first_arg
          role_of_chain_call[OF nf] Mode_Classifier_def)
  next
    case (Some a)
    then show ?thesis
      using assms nh
      by (simp add: main_calls role_of_first_dispatched[OF nf] fork_taken_first_arg
          role_of_chain_call[OF nf] Mode_Classifier_def)
  qed
qed

lemma refused_exit:
  assumes "status (started P argv env) = Running"
    and "status (at_dispatch P argv env) \<noteq> Running"
    and "first_arg argv \<noteq> Some ''--help''" "first_arg argv \<noteq> Some ''-?''"
    and "first_arg argv \<noteq> Some ''--version''" "first_arg argv \<noteq> Some ''-V''"
  shows "status (main P argv env) = Exited 1 \<and> calls (trace (main P argv env)) = []"
proof -
  from assms(3-) have nh: "\<not> (1 < length argv \<and> (argv ! 1 = ''--help'' \<or> argv ! 1 = ''-?''))"
    and nv: "\<not> (1 < length argv \<and> (argv ! 1 = ''--version'' \<or> argv ! 1 = ''-V''))"
    by (auto simp: first_arg_def)
  from assms(1,2) nh nv have r: "do_check_root argv \<and> refuses (ident P)"
    unfolding at_dispatch_Running_iff by blast
  have "main P argv env = check_root P (progname P argv) (started P argv env)"
    using nh nv r unfolding main_cases[OF assms(1)] by auto
  then have "status (main P argv env) = Exited 1"
    using r by (simp add: frame)
  then show ?thesis using assms(2) by (simp add: main_calls)
qed

lemma appendsD: "appends R f \<Longrightarrow> \<exists>es. trace (f t) = trace t @ es \<and> (\<forall>e\<in>set es. R e)"
  by (simp add: appends_def)

lemma appends_same: "appends R (\<lambda>s. s)"
  by (simp add: appends_def)

lemma appends_emit: "R e \<Longrightarrow> appends R (emit e)"
  by (simp add: appends_def frame)

lemma appends_then: "appends R f \<Longrightarrow> appends R g \<Longrightarrow> appends R (\<lambda>s. g (f s))"
  unfolding appends_def
proof
  fix t assume f: "\<forall>t. \<exists>es. trace (f t) = trace t @ es \<and> (\<forall>e\<in>set es. R e)"
    and g: "\<forall>t. \<exists>es. trace (g t) = trace t @ es \<and> (\<forall>e\<in>set es. R e)"
  from f obtain es where es: "trace (f t) = trace t @ es" "\<forall>e\<in>set es. R e" by blast
  from g obtain fs where fs: "trace (g (f t)) = trace (f t) @ fs" "\<forall>e\<in>set fs. R e" by blast
  have "trace (g (f t)) = trace t @ (es @ fs) \<and> (\<forall>e\<in>set (es @ fs). R e)"
    using es fs by auto
  then show "\<exists>es. trace (g (f t)) = trace t @ es \<and> (\<forall>e\<in>set es. R e)" by blast
qed

lemma appends_if: "appends R f \<Longrightarrow> appends R g \<Longrightarrow> appends R (\<lambda>s. if b then f s else g s)"
  by (simp add: appends_def)

lemma appends_status [simp]:
  "appends R (exit n)" "appends R abort" "appends R (elog_FATAL m)"
  by (simp_all add: appends_def exit_def abort_def elog_FATAL_def)

lemma appends_run: "(\<And>f. f \<in> set fs \<Longrightarrow> appends R f) \<Longrightarrow> appends R (run fs)"
proof (induction fs)
  case Nil
  then show ?case by (simp add: appends_def)
next
  case (Cons g gs)
  have "appends R (\<lambda>s. run gs (g s))"
    by (rule appends_then) (simp_all add: Cons)
  then show ?case by (simp add: appends_def)
qed

lemma appends_init_locale:
  "(\<And>l r. R (Setlocale c l r)) \<Longrightarrow> appends R (\<lambda>s. init_locale P n c (g s) s)"
  by (auto simp: appends_def init_locale_cases split: option.splits)

lemma appends_init_locale_C:
  "(\<And>r. R (Setlocale c ''C'' r)) \<Longrightarrow> appends R (init_locale P n c ''C'')"
  by (auto simp: appends_def init_locale_cases split: option.splits)

lemma appends_unsetenv: "R (Unsetenv n) \<Longrightarrow> appends R (unsetenv n)"
  by (simp add: appends_def unsetenv_def emit_def)

lemma appends_print_help: "(\<And>x. R (Stdout x)) \<Longrightarrow> appends R (print_help P n)"
  by (auto simp: appends_def frame)

lemma appends_check_root: "R CheckRoot \<Longrightarrow> (\<And>x. R (Stderr x)) \<Longrightarrow> appends R (check_root P n)"
  by (auto simp: appends_def check_root_def frame split: identity.splits)

lemma appends_invoke: "R (Call c) \<Longrightarrow> appends R (invoke P c)"
  by (simp add: appends_def frame)

lemma pinned_ok_simps [simp]:
  "pinned_ok (Extern x)" "pinned_ok (Stderr x)" "pinned_ok (Stdout x)" "pinned_ok (Unsetenv x)"
  "pinned_ok CheckRoot" "pinned_ok (Call k)"
  "pinned_ok (Setlocale c l r) \<longleftrightarrow> (c = LC_MONETARY \<or> c = LC_NUMERIC \<or> c = LC_TIME \<longrightarrow> l = ''C'')"
  by (simp_all add: pinned_ok_def)

lemma appends_startup_hacks: "appends pinned_ok (startup_hacks P n)"
  unfolding startup_hacks_def
  by (rule appends_run) (auto simp: appends_def frame split: if_splits)

lemma appends_startup: "f \<in> set (main_startup P argv) \<Longrightarrow> appends pinned_ok f"
  unfolding main_startup_def
  by (auto simp: appends_emit appends_unsetenv appends_startup_hacks appends_init_locale_C
      appends_init_locale appends_init_locale[where g="\<lambda>s. []"] split: if_splits)

lemma appends_options: "f \<in> set (main_options P argv) \<Longrightarrow> appends pinned_ok f"
  unfolding main_options_def
  using appendsD[OF appends_check_root[of pinned_ok P "progname P argv"]]
  by (auto simp: appends_def frame)

lemma appends_dispatch: "f \<in> set (main_dispatch P argv) \<Longrightarrow> appends pinned_ok f"
  unfolding main_dispatch_def
  by (auto simp: appends_def frame split: if_splits)

lemma unsetenv_frame [frame]:
  "status (unsetenv n s) = status s" "environ (unsetenv n s) = (environ s)(n := None)"
  "perm_locale (unsetenv n s) = perm_locale s" "trace (unsetenv n s) = trace s @ [Unsetenv n]"
  by (simp_all add: unsetenv_def emit_def)

lemma main_trace_ok: "e \<in> set (trace (main P argv env)) \<Longrightarrow> pinned_ok e"
proof -
  have "appends pinned_ok (run (main_startup P argv @ main_options P argv @ main_dispatch P argv))"
    by (rule appends_run) (auto simp: appends_startup appends_options appends_dispatch)
  from appendsD[OF this, of "process env"] show "e \<in> set (trace (main P argv env)) \<Longrightarrow> pinned_ok e"
    by (auto simp: main_def process_def)
qed

lemma main_extends: "\<exists>es. trace (main P argv env) = trace (started P argv env) @ es"
proof -
  have "appends pinned_ok (run (main_options P argv @ main_dispatch P argv))"
    by (rule appends_run) (auto simp: appends_options appends_dispatch)
  from appendsD[OF this, of "started P argv env"] show ?thesis
    by (auto simp: main_def started_def run_append)
qed

lemma startup_grows:
  "g \<in> set (main_startup P argv) \<Longrightarrow> e \<in> set (trace t) \<Longrightarrow> e \<in> set (trace (g t))"
  using appendsD[OF appends_startup, of g P argv t] by auto

lemma init_locale_adopted:
  "status (init_locale P n c l t) = Running \<Longrightarrow>
   \<exists>l' r. Setlocale c l' (Some r) \<in> set (trace (init_locale P n c l t))"
  by (auto simp: init_locale_cases split: option.splits)

lemma started_trace:
  assumes "status (started P argv env) = Running"
  shows "\<exists>pre. trace (started P argv env) = pre @ [Unsetenv ''LC_ALL'', Extern ''check_strxfrm_bug'']
           \<and> (\<forall>c\<in>set (categories P). \<exists>l r. Setlocale c l (Some r) \<in> set pre)"
    and "environ (started P argv env) ''LC_ALL'' = None"
proof -
  let ?front = "butlast (butlast (main_startup P argv))"
  let ?s1 = "run ?front (process env)"
  have st: "started P argv env = run [unsetenv ''LC_ALL'', emit (Extern ''check_strxfrm_bug'')] ?s1"
    unfolding started_def by (subst startup_split) (simp only: run_append)
  have r1: "status ?s1 = Running"
    using assms unfolding st by (metis run_stopped)
  have eq: "started P argv env = emit (Extern ''check_strxfrm_bug'') (unsetenv ''LC_ALL'' ?s1)"
    unfolding st using r1 by (simp add: frame)
  have ev: "\<exists>l r. Setlocale c l (Some r) \<in> set (trace ?s1)" if c: "c \<in> set (categories P)" for c
  proof -
    from init_step_in_front[OF c] obtain f where
      f: "f \<in> set ?front" and fi: "\<And>t. \<exists>n l. f t = init_locale P n c l t"
      by blast
    show ?thesis
    proof (rule run_establish[where f=f and Q="\<lambda>t. \<exists>l r. Setlocale c l (Some r) \<in> set (trace t)"])
      show "status ?s1 = Running" by (rule r1)
      show "f \<in> set ?front" by (rule f)
    next
      fix t assume "status (f t) = Running"
      then show "\<exists>l r. Setlocale c l (Some r) \<in> set (trace (f t))"
        using fi[of t] init_locale_adopted by metis
    next
      fix g and t :: proc
      assume "g \<in> set ?front" "\<exists>l r. Setlocale c l (Some r) \<in> set (trace t)"
      then show "\<exists>l r. Setlocale c l (Some r) \<in> set (trace (g t))"
        using startup_grows[OF in_front] by blast
    qed
  qed
  show "\<exists>pre. trace (started P argv env) = pre @ [Unsetenv ''LC_ALL'', Extern ''check_strxfrm_bug'']
           \<and> (\<forall>c\<in>set (categories P). \<exists>l r. Setlocale c l (Some r) \<in> set pre)"
    using ev by (intro exI[of _ "trace ?s1"]) (simp add: eq frame)
  show "environ (started P argv env) ''LC_ALL'' = None"
    by (simp add: eq frame)
qed

lemma pinned_set_init_locale:
  "pinned_set c t \<Longrightarrow> c' \<noteq> c \<or> l = ''C'' \<Longrightarrow> pinned_set c (init_locale P n c' l t)"
  by (auto simp: pinned_set_def init_locale_cases split: option.splits)

lemma pinned_set_established:
  "status (init_locale P n c ''C'' t) = Running \<Longrightarrow> pinned_set c (init_locale P n c ''C'' t)"
  by (auto simp: pinned_set_def init_locale_cases split: option.splits)

lemma pinned_set_grows:
  "pinned_set c t \<Longrightarrow> perm_locale (f t) = perm_locale t \<Longrightarrow> appends R f \<Longrightarrow> pinned_set c (f t)"
  using appendsD[of R f t] by (auto simp: pinned_set_def)

lemma pinned_set_startup:
  assumes "c = LC_MONETARY \<or> c = LC_NUMERIC \<or> c = LC_TIME"
    and "g \<in> set (main_startup P argv)" and "pinned_set c t"
  shows "pinned_set c (g t)"
proof -
  have k: "pinned_set c (emit e t)" for e
    using assms(3) by (rule pinned_set_grows[where R="\<lambda>e. True"]) (simp_all add: frame appends_emit)
  have u: "pinned_set c (unsetenv n t)" for n
    using assms(3) by (rule pinned_set_grows[where R="\<lambda>e. True"]) (simp_all add: frame appends_unsetenv)
  have h: "pinned_set c (startup_hacks P n t)" for n
    using assms(3) by (rule pinned_set_grows[where R=pinned_ok]) (simp_all add: startup_hacks_keeps appends_startup_hacks)
  have i: "c' \<noteq> c \<or> l = ''C'' \<Longrightarrow> pinned_set c (init_locale P n c' l t)" for n c' l
    using assms(3) by (rule pinned_set_init_locale)
  show ?thesis
    using assms(1,2) k u h i
    by (auto simp: main_startup_def split: if_splits)
qed

lemma started_pinned:
  assumes "status (started P argv env) = Running"
    and c: "c = LC_MONETARY \<or> c = LC_NUMERIC \<or> c = LC_TIME"
  shows "pinned_set c (started P argv env)"
proof -
  obtain n where f: "init_locale P n c ''C'' \<in> set (main_startup P argv)"
    using c by (auto simp: main_startup_def)
  show ?thesis
    unfolding started_def
  proof (rule run_establish[where f="init_locale P n c ''C''" and Q="pinned_set c"])
    show "status (run (main_startup P argv) (process env)) = Running"
      using assms(1) by (simp add: started_def)
    show "init_locale P n c ''C'' \<in> set (main_startup P argv)" by (rule f)
  next
    fix t assume "status (init_locale P n c ''C'' t) = Running"
    then show "pinned_set c (init_locale P n c ''C'' t)" by (rule pinned_set_established)
  next
    fix g and t :: proc
    assume "g \<in> set (main_startup P argv)" "pinned_set c t"
    then show "pinned_set c (g t)" using pinned_set_startup[OF c] by blast
  qed
qed

lemma main_pinned:
  assumes "status (started P argv env) = Running"
    and c: "c = LC_MONETARY \<or> c = LC_NUMERIC \<or> c = LC_TIME"
  shows "\<exists>r. perm_locale (main P argv env) c = Some r
            \<and> Setlocale c ''C'' (Some r) \<in> set (trace (main P argv env))"
  using started_pinned[OF assms] main_extends[of P argv env]
  by (auto simp: pinned_set_def main_keeps)

lemma main_trace_split:
  assumes "status (started P argv env) = Running"
  shows "\<exists>pre post. trace (main P argv env) = pre @ Unsetenv ''LC_ALL'' # post
           \<and> (\<forall>c\<in>set (categories P). \<exists>l r. Setlocale c l (Some r) \<in> set pre)"
proof -
  from started_trace(1)[OF assms] obtain pre where
    p: "trace (started P argv env) = pre @ [Unsetenv ''LC_ALL'', Extern ''check_strxfrm_bug'']"
    and q: "\<forall>c\<in>set (categories P). \<exists>l r. Setlocale c l (Some r) \<in> set pre"
    by blast
  from main_extends[of P argv env] obtain es where
    "trace (main P argv env) = trace (started P argv env) @ es" by blast
  then have "trace (main P argv env) = pre @ Unsetenv ''LC_ALL'' # (Extern ''check_strxfrm_bug'' # es)"
    by (simp add: p)
  with q show ?thesis by blast
qed

lemma init_locale_never:
  "\<forall>l e. setlocale P c l e = None \<Longrightarrow> perm_locale t c = None \<Longrightarrow>
   perm_locale (init_locale P n c' l' t) c = None"
  by (auto simp: init_locale_cases split: option.splits)

lemma startup_never:
  assumes "\<forall>l e. setlocale P c l e = None" and "g \<in> set (main_startup P argv)"
    and "perm_locale t c = None"
  shows "perm_locale (g t) c = None"
proof -
  have i: "perm_locale (init_locale P n c' l' t) c = None" for n c' l'
    using assms(1,3) by (rule init_locale_never)
  show ?thesis
    using assms(2,3) i
    by (auto simp: main_startup_def frame startup_hacks_keeps split: if_splits)
qed

lemma started_fails:
  assumes "c \<in> set (categories P)" and "\<forall>l e. setlocale P c l e = None"
  shows "status (started P argv env) \<noteq> Running"
proof
  assume "status (started P argv env) = Running"
  then have "perm_locale (started P argv env) c \<noteq> None"
    using assms(1) by (rule started_resolved)
  moreover have "perm_locale (started P argv env) c = None"
    unfolding started_def
    by (rule run_invariant[where Q="\<lambda>t. perm_locale t c = None"])
       (simp_all add: startup_never[OF assms(2)] process_def)
  ultimately show False by simp
qed

lemma startup_hacks_status:
  "status (startup_hacks P n t) = status t
   \<or> (WIN32 P \<and> WSAStartup P \<noteq> 0 \<and> status (startup_hacks P n t) = Exited 1)"
  unfolding startup_hacks_def
  by (rule run_invariant[where Q="\<lambda>u. status u = status t
            \<or> (WIN32 P \<and> WSAStartup P \<noteq> 0 \<and> status u = Exited 1)"])
     (auto simp: frame split: if_splits)

lemma init_locale_status:
  "status (init_locale P n c l t) = status t \<or> (\<exists>m. status (init_locale P n c l t) = Fatal m)"
  by (auto simp: init_locale_cases split: option.splits)

lemma startup_status:
  assumes "g \<in> set (main_startup P argv)"
    and "status t = Running \<or> ended_in_startup P (status t)"
  shows "status (g t) = Running \<or> ended_in_startup P (status (g t))"
proof -
  have h: "status (startup_hacks P n t) = Running \<or> ended_in_startup P (status (startup_hacks P n t))" for n
    using assms(2) startup_hacks_status[of P n t] by (auto simp: ended_in_startup_def)
  have i: "status (init_locale P n c l t) = Running \<or> ended_in_startup P (status (init_locale P n c l t))"
    for n c l
    using assms(2) init_locale_status[of P n c l t] by (auto simp: ended_in_startup_def)
  show ?thesis
    using assms h i
    by (auto simp: main_startup_def frame split: if_splits)
qed

lemma started_status:
  "status (started P argv env) = Running \<or> ended_in_startup P (status (started P argv env))"
  unfolding started_def
  by (rule run_invariant[where Q="\<lambda>t. status t = Running \<or> ended_in_startup P (status t)"])
     (simp_all add: startup_status process_def)

lemma main_not_started:
  "status (started P argv env) \<noteq> Running \<Longrightarrow> main P argv env = started P argv env"
  by (simp add: main_parts run_stopped)

lemma help_text_not_empty: "help_text P n \<noteq> []"
  by (simp add: help_text_def)

lemma informational_trace:
  assumes s: "status (started P argv env) = Running"
    and a: "1 < length argv" "argv ! 1 \<in> {''--help'', ''-?'', ''--version'', ''-V''}"
  shows "\<exists>out. out \<noteq> [] \<and> status (main P argv env) = Exited 0
          \<and> trace (main P argv env) = trace (started P argv env) @ map Stdout out"
proof (cases "argv ! 1 = ''--help'' \<or> argv ! 1 = ''-?''")
  case True
  then have "status (main P argv env) = Exited 0
     \<and> trace (main P argv env) = trace (started P argv env) @ map Stdout (help_text P (progname P argv))"
    using a(1) by (simp add: main_cases[OF s] frame)
  then show ?thesis using help_text_not_empty by blast
next
  case False
  then have v: "argv ! 1 = ''--version'' \<or> argv ! 1 = ''-V''" using a(2) by auto
  have "status (main P argv env) = Exited 0
     \<and> trace (main P argv env) = trace (started P argv env) @ map Stdout [PG_BACKEND_VERSIONSTR P]"
    using False v a(1) by (simp add: main_cases[OF s] frame)
  then show ?thesis by blast
qed

lemma init_locale_Extern:
  "Extern x \<in> set (trace (init_locale P n c l s)) \<longleftrightarrow> Extern x \<in> set (trace s)"
  by (auto simp: init_locale_cases split: option.splits)

lemma startup_hacks_no_lookup: "no_lookup s \<Longrightarrow> no_lookup (startup_hacks P n s)"
  unfolding startup_hacks_def
  by (rule run_invariant) (auto simp: no_lookup_def frame split: if_splits)

lemma no_lookup_started: "no_lookup (started P argv env)"
  unfolding started_def
proof (rule run_invariant)
  show "no_lookup (process env)" by (simp add: no_lookup_def process_def)
next
  fix f s assume "f \<in> set (main_startup P argv)" and n: "no_lookup s"
  then show "no_lookup (f s)"
    using startup_hacks_no_lookup[OF n, of P "progname P argv"]
    by (auto simp: main_startup_def no_lookup_def frame init_locale_Extern split: if_splits)
qed

lemma check_root_Extern:
  "Extern x \<in> set (trace (check_root P n s)) \<longleftrightarrow> Extern x \<in> set (trace s)"
  by (auto simp: check_root_def frame split: identity.splits)

lemma no_lookup_at_dispatch: "no_lookup (at_dispatch P argv env)"
  unfolding at_dispatch_def
proof (rule run_invariant)
  show "no_lookup (started P argv env)" by (rule no_lookup_started)
next
  fix f s assume "f \<in> set (main_options P argv)" and n: "no_lookup s"
  then show "no_lookup (f s)"
    by (auto simp: main_options_def no_lookup_def frame check_root_Extern split: if_splits)
qed

lemma lookup_only_single:
  assumes "Extern ''get_user_name_or_exit'' \<in> set (trace (main P argv env))"
  shows "1 < length argv \<and> argv ! 1 = ''--single''"
proof (rule ccontr)
  assume n: "\<not> (1 < length argv \<and> argv ! 1 = ''--single'')"
  have a: "no_lookup (at_dispatch P argv env)" by (rule no_lookup_at_dispatch)
  have "no_lookup (main P argv env)"
    unfolding main_at_dispatch
  proof (rule run_invariant)
    show "no_lookup (at_dispatch P argv env)" by (rule a)
  next
    fix f s assume "f \<in> set (main_dispatch P argv)" and "no_lookup s"
    then show "no_lookup (f s)"
      using n by (auto simp: main_dispatch_def no_lookup_def frame split: if_splits)
  qed
  with assms show False by (simp add: no_lookup_def)
qed

lemma chain_call_one: "\<not> lookup_fails P argv \<Longrightarrow> \<exists>c. chain_call P argv = [c]"
  by (auto simp: chain_call_def lookup_fails_def split: option.splits)

lemma started_no_passwd: "status (started no_passwd argv german) = Running"
  by (simp add: model_defs platform_defs)

lemma no_passwd_fields:
  "ident no_passwd = Posix 1000 1000" "EXEC_BACKEND no_passwd = False"
  "get_user_name_or_exit no_passwd p = None"
  by (simp_all add: no_passwd_def linux_user_def)

section \<open>The claims\<close>

text \<open>
  C1. The claim has the root check skipped when \<^verbatim>\<open>--describe-config\<close> stands
  anywhere among the arguments. In \<^verbatim>\<open>postgres --single --describe-config\<close> run by
  root it stands among them, yet \<^verbatim>\<open>check_root\<close> is called and the process exits
  with status 1.
\<close>

theorem describe_config_anywhere_counterexample:
  "''--describe-config'' \<in> set (tl [''postgres'', ''--single'', ''--describe-config''])
   \<and> CheckRoot \<in> set (trace (main linux_root [''postgres'', ''--single'', ''--describe-config''] german))
   \<and> status (main linux_root [''postgres'', ''--single'', ''--describe-config''] german) = Exited 1"
  by (simp add: main_CheckRoot_iff main_cases started_examples do_check_root_def refuses_def
      linux_root_fields frame)

text \<open>
  C1, amended. When start-up has completed, \<^verbatim>\<open>check_root\<close> is called unless the
  first argument is \<^verbatim>\<open>--help\<close>, \<^verbatim>\<open>-?\<close>, \<^verbatim>\<open>--version\<close> or \<^verbatim>\<open>-V\<close> (the process
  exits before the check), or the first argument is \<^verbatim>\<open>--describe-config\<close>, or
  the first argument is \<^verbatim>\<open>-C\<close> and another argument follows. Only the first
  argument counts, and nothing about the identity of the process enters the
  decision.
\<close>

theorem root_check_bypass:
  "status (started P argv env) = Running \<longrightarrow>
     (CheckRoot \<in> set (trace (main P argv env)) \<longleftrightarrow>
        \<not> (1 < length argv \<and>
             argv ! 1 \<in> {''--help'', ''-?'', ''--version'', ''-V'', ''--describe-config''})
      \<and> \<not> (2 < length argv \<and> argv ! 1 = ''-C''))"
  by (auto simp: main_CheckRoot_iff do_check_root_def)

theorem root_check_bypass_witness:
  "status (started linux_root [''postgres'', ''--describe-config''] german) = Running
   \<and> CheckRoot \<notin> set (trace (main linux_root [''postgres'', ''--describe-config''] german))"
proof -
  have h: "status (started linux_root [''postgres'', ''--describe-config''] german) = Running"
    by (rule started_examples)
  show ?thesis
    using h root_check_bypass[of linux_root "[''postgres'', ''--describe-config'']" german]
    by simp
qed

text \<open>
  C2. The specification's classifier looks at the first argument only and always
  yields one mode; no first argument and every unrecognised one yield
  \<open>Supervisor\<close>. \<^verbatim>\<open>main\<close> follows it: once start-up has completed, the modes
  \<open>ShowHelp\<close> and \<open>ShowVersion\<close> print and exit with status 0 without any driver;
  for every other mode the first driver called, when the dispatch is reached, is
  the driver of that mode, and otherwise the root check has ended the process
  with status 1. The one case in which the dispatch is reached and no driver is
  called is the mode \<open>SingleSession\<close> with a user whose name cannot be looked up:
  \<^verbatim>\<open>main\<close> has then called \<^verbatim>\<open>get_user_name_or_exit\<close>, which it does for this
  mode only, and the process has exited there. For a first argument that is none
  of the tokens the driver is \<^verbatim>\<open>PostmasterMain\<close> with the whole argument vector.
\<close>

theorem mode_classification:
  "(first_arg argv' = first_arg argv \<longrightarrow>
      Mode_Classifier forking argv' = Mode_Classifier forking argv)
   \<and> (status (started P argv env) = Running \<longrightarrow>
       (case Mode_Classifier (EXEC_BACKEND P) argv of
          ShowHelp \<Rightarrow>
            status (main P argv env) = Exited 0
            \<and> stdout (trace (main P argv env)) = help_text P (progname P argv)
            \<and> calls (trace (main P argv env)) = []
        | ShowVersion \<Rightarrow>
            status (main P argv env) = Exited 0
            \<and> stdout (trace (main P argv env)) = [PG_BACKEND_VERSIONSTR P]
            \<and> calls (trace (main P argv env)) = []
        | m \<Rightarrow>
            if status (at_dispatch P argv env) = Running
            then (if 1 < length argv \<and> argv ! 1 = ''--single''
                     \<and> get_user_name_or_exit P (progname P argv) = None
                  then m = SingleSession
                     \<and> Extern ''get_user_name_or_exit'' \<in> set (trace (main P argv env))
                     \<and> status (main P argv env) = Exited 1
                     \<and> calls (trace (main P argv env)) = []
                  else map role_of (take 1 (calls (trace (main P argv env)))) = [m])
            else status (main P argv env) = Exited 1 \<and> calls (trace (main P argv env)) = []))
   \<and> (Extern ''get_user_name_or_exit'' \<in> set (trace (main P argv env)) \<longrightarrow>
        Mode_Classifier (EXEC_BACKEND P) argv = SingleSession)
   \<and> (first_arg argv \<notin> Some ` {''--help'', ''-?'', ''--version'', ''-V'', ''--boot'',
                                  ''--describe-config'', ''--single''}
        \<and> \<not> (EXEC_BACKEND P \<and> (\<exists>a. first_arg argv = Some a \<and> prefix ''--fork'' a)) \<longrightarrow>
          Mode_Classifier (EXEC_BACKEND P) argv = Supervisor
        \<and> (status (at_dispatch P argv env) = Running \<longrightarrow>
             calls (trace (main P argv env)) = [PostmasterMain argv]))"
proof (intro conjI impI)
  assume "first_arg argv' = first_arg argv"
  then show "Mode_Classifier forking argv' = Mode_Classifier forking argv"
    by (rule Mode_Classifier_first_arg)
next
  assume s: "status (started P argv env) = Running"
  let ?m = "Mode_Classifier (EXEC_BACKEND P) argv"
  let ?other = "\<lambda>m. if status (at_dispatch P argv env) = Running
            then (if 1 < length argv \<and> argv ! 1 = ''--single''
                     \<and> get_user_name_or_exit P (progname P argv) = None
                  then m = SingleSession
                     \<and> Extern ''get_user_name_or_exit'' \<in> set (trace (main P argv env))
                     \<and> status (main P argv env) = Exited 1
                     \<and> calls (trace (main P argv env)) = []
                  else map role_of (take 1 (calls (trace (main P argv env)))) = [m])
            else status (main P argv env) = Exited 1 \<and> calls (trace (main P argv env)) = []"
  consider (usage) "first_arg argv = Some ''--help'' \<or> first_arg argv = Some ''-?''"
    | (version) "first_arg argv = Some ''--version'' \<or> first_arg argv = Some ''-V''"
    | (other) "first_arg argv \<noteq> Some ''--help''" "first_arg argv \<noteq> Some ''-?''"
        "first_arg argv \<noteq> Some ''--version''" "first_arg argv \<noteq> Some ''-V''"
    by blast
  then show "case ?m of
          ShowHelp \<Rightarrow>
            status (main P argv env) = Exited 0
            \<and> stdout (trace (main P argv env)) = help_text P (progname P argv)
            \<and> calls (trace (main P argv env)) = []
        | ShowVersion \<Rightarrow>
            status (main P argv env) = Exited 0
            \<and> stdout (trace (main P argv env)) = [PG_BACKEND_VERSIONSTR P]
            \<and> calls (trace (main P argv env)) = []
        | m \<Rightarrow> ?other m"
  proof cases
    case usage
    then have m: "?m = ShowHelp" by (auto simp: Mode_Classifier_def)
    from usage have "1 < length argv \<and> (argv ! 1 = ''--help'' \<or> argv ! 1 = ''-?'')"
      by (auto simp: first_arg_def split: if_splits)
    then show ?thesis
      using s unfolding m
      by (simp add: main_cases frame started_quiet stdout_append calls_append
          stdout_map_Stdout calls_map_Stdout)
  next
    case version
    then have m: "?m = ShowVersion" by (auto simp: Mode_Classifier_def)
    from version have v: "1 < length argv \<and> (argv ! 1 = ''--version'' \<or> argv ! 1 = ''-V'')"
      by (auto simp: first_arg_def split: if_splits)
    then have "\<not> (argv ! 1 = ''--help'' \<or> argv ! 1 = ''-?'')" by auto
    then show ?thesis
      using s v unfolding m
      by (simp add: main_cases frame started_quiet stdout_append calls_append)
  next
    case other
    then have m: "?m \<noteq> ShowHelp" "?m \<noteq> ShowVersion"
      by (auto simp: Mode_Classifier_def split: option.splits)
    have "?other ?m"
    proof (cases "status (at_dispatch P argv env) = Running")
      case False
      then show ?thesis using refused_exit[OF s False other] by simp
    next
      case True
      show ?thesis
      proof (cases "lookup_fails P argv")
        case f: True
        then have "?m = SingleSession"
          by (simp add: lookup_fails_def Mode_Classifier_def first_arg_def prefix_fork)
        moreover have "Extern ''get_user_name_or_exit'' \<in> set (trace (main P argv env))"
          using f True by (simp add: main_lookup_called lookup_fails_def)
        moreover have "status (main P argv env) = Exited 1"
          using f True by (simp add: main_status)
        moreover have "calls (trace (main P argv env)) = []"
          using f True by (simp add: main_calls dispatched_empty)
        ultimately show ?thesis using f True by (simp add: lookup_fails_def)
      next
        case f: False
        then show ?thesis using True first_call_role[OF True f]
          by (auto simp: lookup_fails_def)
      qed
    qed
    then show ?thesis using m by (cases ?m) (simp_all only: ExecutionMode.case simp_thms)
  qed
next
  assume "Extern ''get_user_name_or_exit'' \<in> set (trace (main P argv env))"
  then have "1 < length argv \<and> argv ! 1 = ''--single''"
    by (rule lookup_only_single)
  then show "Mode_Classifier (EXEC_BACKEND P) argv = SingleSession"
    by (simp add: Mode_Classifier_def first_arg_def prefix_fork)
next
  assume u: "first_arg argv \<notin> Some ` {''--help'', ''-?'', ''--version'', ''-V'', ''--boot'',
                                  ''--describe-config'', ''--single''}
        \<and> \<not> (EXEC_BACKEND P \<and> (\<exists>a. first_arg argv = Some a \<and> prefix ''--fork'' a))"
  then show "Mode_Classifier (EXEC_BACKEND P) argv = Supervisor"
    by (auto simp: Mode_Classifier_def split: option.splits)
  assume d: "status (at_dispatch P argv env) = Running"
  from u have "\<not> fork_taken P argv" by (simp add: fork_taken_first_arg)
  moreover from u have "chain_call P argv = [PostmasterMain argv]"
    by (auto simp: chain_call_def first_arg_def)
  ultimately show "calls (trace (main P argv env)) = [PostmasterMain argv]"
    using d by (simp add: main_calls dispatched_def)
qed

theorem mode_classification_witness:
  "first_arg [''postgres'', ''-D'', ''/data''] = first_arg [''postgres'', ''-D'', ''/srv'', ''-i'']
   \<and> Mode_Classifier False [''postgres'', ''-D'', ''/data''] = Supervisor
   \<and> status (started linux_user [''postgres'', ''-D'', ''/data''] german) = Running
   \<and> status (at_dispatch linux_user [''postgres'', ''-D'', ''/data''] german) = Running
   \<and> calls (trace (main linux_user [''postgres'', ''-D'', ''/data''] german))
       = [PostmasterMain [''postgres'', ''-D'', ''/data'']]"
proof -
  have f: "first_arg [''postgres'', ''-D'', ''/data''] = Some ''-D''"
    by (simp add: first_arg_def)
  have s: "status (started linux_user [''postgres'', ''-D'', ''/data''] german) = Running"
    by (rule started_linux_user)
  have d: "status (at_dispatch linux_user [''postgres'', ''-D'', ''/data''] german) = Running"
    by (simp add: at_dispatch_Running_iff s do_check_root_def refuses_def linux_user_fields)
  show ?thesis
    using s d mode_classification[of "[''postgres'', ''-D'', ''/srv'', ''-i'']"
        "[''postgres'', ''-D'', ''/data'']" False linux_user german]
    by (simp add: f first_arg_def linux_user_fields prefix_fork)
qed

text \<open>
  C3. The claim has every invocation whose first argument is \<^verbatim>\<open>--help\<close> print the
  usage text and exit with status 0. The locale set-up comes first: on a system
  where no locale can be adopted, \<^verbatim>\<open>postgres --help\<close> ends with the fatal error of
  \<^verbatim>\<open>init_locale\<close> and has printed nothing.
\<close>

theorem help_without_locale_counterexample:
  "1 < length [''postgres'', ''--help'']
   \<and> [''postgres'', ''--help''] ! 1 = ''--help''
   \<and> status (main no_locale [''postgres'', ''--help''] german)
       = Fatal (locale_failure [] ''LC_COLLATE'')
   \<and> stdout (trace (main no_locale [''postgres'', ''--help''] german)) = []"
proof -
  have m: "status (started no_locale [''postgres'', ''--help''] german)
             = Fatal (locale_failure [] ''LC_COLLATE'')"
    by (simp add: model_defs no_locale_def linux_user_def)
  then have "main no_locale [''postgres'', ''--help''] german
               = started no_locale [''postgres'', ''--help''] german"
    by (simp add: main_not_started)
  then show ?thesis using m by (simp add: started_quiet)
qed

text \<open>
  C3, amended. When the first argument is \<^verbatim>\<open>--help\<close> or \<^verbatim>\<open>-?\<close>, \<^verbatim>\<open>check_root\<close> is
  never called and no role driver is ever called; and once the start-up part of
  \<^verbatim>\<open>main\<close> (platform hacks and locale set-up) has completed, the process writes
  the usage text to standard output and exits with status 0. When the first
  argument is \<^verbatim>\<open>--version\<close> or \<^verbatim>\<open>-V\<close>, again there is no root check and no
  dispatch, and once start-up has completed the process writes the fixed version
  string and nothing else, whatever the other arguments, and exits with status 0.
  The usage text is one string for each \<^verbatim>\<open>printf\<close> of \<^verbatim>\<open>help\<close>, one fewer without
  \<^verbatim>\<open>USE_SSL\<close>; where messages are not translated it reads, in one piece, as
  written out below, with the program name in two places and the sections for
  the server, the developer, the single-user and the bootstrapping options.
\<close>

theorem help_version_short_circuit:
  \<open>(1 < length argv \<longrightarrow>
       (argv ! 1 = ''--help'' \<or> argv ! 1 = ''-?'' \<longrightarrow>
            CheckRoot \<notin> set (trace (main P argv env))
          \<and> calls (trace (main P argv env)) = []
          \<and> (status (started P argv env) = Running \<longrightarrow>
                status (main P argv env) = Exited 0
              \<and> stdout (trace (main P argv env)) = help_text P (progname P argv)))
     \<and> (argv ! 1 = ''--version'' \<or> argv ! 1 = ''-V'' \<longrightarrow>
            CheckRoot \<notin> set (trace (main P argv env))
          \<and> calls (trace (main P argv env)) = []
          \<and> (status (started P argv env) = Running \<longrightarrow>
                status (main P argv env) = Exited 0
              \<and> stdout (trace (main P argv env)) = [PG_BACKEND_VERSIONSTR P])))
   \<and> length (help_text P n) = (if USE_SSL P then 44 else 43)
   \<and> (gettext P = (\<lambda>m. m) \<longrightarrow>
        concat (help_text P n) =
        n @ '' is the PostgreSQL server.\<newline>\<newline>''
        @ ''Usage:\<newline>  '' @ n @ '' [OPTION]...\<newline>\<newline>''
        @ ''Options:\<newline>''
        @ ''  -B NBUFFERS        number of shared buffers\<newline>''
        @ ''  -c NAME=VALUE      set run-time parameter\<newline>''
        @ ''  -C NAME            print value of run-time parameter, then exit\<newline>''
        @ ''  -d 1-5             debugging level\<newline>''
        @ ''  -D DATADIR         database directory\<newline>''
        @ ''  -e                 use European date input format (DMY)\<newline>''
        @ ''  -F                 turn fsync off\<newline>''
        @ ''  -h HOSTNAME        host name or IP address to listen on\<newline>''
        @ ''  -i                 enable TCP/IP connections\<newline>''
        @ ''  -k DIRECTORY       Unix-domain socket location\<newline>''
        @ (if USE_SSL P then ''  -l                 enable SSL connections\<newline>'' else [])
        @ ''  -N MAX-CONNECT     maximum number of allowed connections\<newline>''
        @ ''  -o OPTIONS         pass "OPTIONS" to each server process (obsolete)\<newline>''
        @ ''  -p PORT            port number to listen on\<newline>''
        @ ''  -s                 show statistics after each query\<newline>''
        @ ''  -S WORK-MEM        set amount of memory for sorts (in kB)\<newline>''
        @ ''  -V, --version      output version information, then exit\<newline>''
        @ ''  --NAME=VALUE       set run-time parameter\<newline>''
        @ ''  --describe-config  describe configuration parameters, then exit\<newline>''
        @ ''  -?, --help         show this help, then exit\<newline>''
        @ ''\<newline>Developer options:\<newline>''
        @ ''  -f s|i|n|m|h       forbid use of some plan types\<newline>''
        @ ''  -n                 do not reinitialize shared memory after abnormal exit\<newline>''
        @ ''  -O                 allow system table structure changes\<newline>''
        @ ''  -P                 disable system indexes\<newline>''
        @ ''  -t pa|pl|ex        show timings after each query\<newline>''
        @ ''  -T                 send SIGSTOP to all backend processes if one dies\<newline>''
        @ ''  -W NUM             wait NUM seconds to allow attach from a debugger\<newline>''
        @ ''\<newline>Options for single-user mode:\<newline>''
        @ ''  --single           selects single-user mode (must be first argument)\<newline>''
        @ ''  DBNAME             database name (defaults to user name)\<newline>''
        @ ''  -d 0-5             override debugging level\<newline>''
        @ ''  -E                 echo statement before execution\<newline>''
        @ ''  -j                 do not use newline as interactive query delimiter\<newline>''
        @ ''  -r FILENAME        send stdout and stderr to given file\<newline>''
        @ ''\<newline>Options for bootstrapping mode:\<newline>''
        @ ''  --boot             selects bootstrapping mode (must be first argument)\<newline>''
        @ ''  DBNAME             database name (mandatory argument in bootstrapping mode)\<newline>''
        @ ''  -r FILENAME        send stdout and stderr to given file\<newline>''
        @ ''  -x NUM             internal use\<newline>''
        @ ''\<newline>Please read the documentation for the complete list of run-time\<newline>configuration settings and how to set them on the command line or in\<newline>the configuration file.\<newline>\<newline>Report bugs to <pgsql-bugs@lists.postgresql.org>.\<newline>'')\<close>
proof (intro conjI)
  show "1 < length argv \<longrightarrow>
       (argv ! 1 = ''--help'' \<or> argv ! 1 = ''-?'' \<longrightarrow>
            CheckRoot \<notin> set (trace (main P argv env))
          \<and> calls (trace (main P argv env)) = []
          \<and> (status (started P argv env) = Running \<longrightarrow>
                status (main P argv env) = Exited 0
              \<and> stdout (trace (main P argv env)) = help_text P (progname P argv)))
     \<and> (argv ! 1 = ''--version'' \<or> argv ! 1 = ''-V'' \<longrightarrow>
            CheckRoot \<notin> set (trace (main P argv env))
          \<and> calls (trace (main P argv env)) = []
          \<and> (status (started P argv env) = Running \<longrightarrow>
                status (main P argv env) = Exited 0
              \<and> stdout (trace (main P argv env)) = [PG_BACKEND_VERSIONSTR P]))"
  proof (cases "status (started P argv env) = Running")
    case True
    then show ?thesis
      by (auto simp: main_cases frame started_quiet stdout_append calls_append
          stdout_map_Stdout calls_map_Stdout)
  next
    case False
    then show ?thesis
      by (simp add: main_not_started started_quiet)
  qed
  show "length (help_text P n) = (if USE_SSL P then 44 else 43)"
    by (simp add: help_text_def)
  show \<open>gettext P = (\<lambda>m. m) \<longrightarrow>
        concat (help_text P n) =
        n @ '' is the PostgreSQL server.\<newline>\<newline>''
        @ ''Usage:\<newline>  '' @ n @ '' [OPTION]...\<newline>\<newline>''
        @ ''Options:\<newline>''
        @ ''  -B NBUFFERS        number of shared buffers\<newline>''
        @ ''  -c NAME=VALUE      set run-time parameter\<newline>''
        @ ''  -C NAME            print value of run-time parameter, then exit\<newline>''
        @ ''  -d 1-5             debugging level\<newline>''
        @ ''  -D DATADIR         database directory\<newline>''
        @ ''  -e                 use European date input format (DMY)\<newline>''
        @ ''  -F                 turn fsync off\<newline>''
        @ ''  -h HOSTNAME        host name or IP address to listen on\<newline>''
        @ ''  -i                 enable TCP/IP connections\<newline>''
        @ ''  -k DIRECTORY       Unix-domain socket location\<newline>''
        @ (if USE_SSL P then ''  -l                 enable SSL connections\<newline>'' else [])
        @ ''  -N MAX-CONNECT     maximum number of allowed connections\<newline>''
        @ ''  -o OPTIONS         pass "OPTIONS" to each server process (obsolete)\<newline>''
        @ ''  -p PORT            port number to listen on\<newline>''
        @ ''  -s                 show statistics after each query\<newline>''
        @ ''  -S WORK-MEM        set amount of memory for sorts (in kB)\<newline>''
        @ ''  -V, --version      output version information, then exit\<newline>''
        @ ''  --NAME=VALUE       set run-time parameter\<newline>''
        @ ''  --describe-config  describe configuration parameters, then exit\<newline>''
        @ ''  -?, --help         show this help, then exit\<newline>''
        @ ''\<newline>Developer options:\<newline>''
        @ ''  -f s|i|n|m|h       forbid use of some plan types\<newline>''
        @ ''  -n                 do not reinitialize shared memory after abnormal exit\<newline>''
        @ ''  -O                 allow system table structure changes\<newline>''
        @ ''  -P                 disable system indexes\<newline>''
        @ ''  -t pa|pl|ex        show timings after each query\<newline>''
        @ ''  -T                 send SIGSTOP to all backend processes if one dies\<newline>''
        @ ''  -W NUM             wait NUM seconds to allow attach from a debugger\<newline>''
        @ ''\<newline>Options for single-user mode:\<newline>''
        @ ''  --single           selects single-user mode (must be first argument)\<newline>''
        @ ''  DBNAME             database name (defaults to user name)\<newline>''
        @ ''  -d 0-5             override debugging level\<newline>''
        @ ''  -E                 echo statement before execution\<newline>''
        @ ''  -j                 do not use newline as interactive query delimiter\<newline>''
        @ ''  -r FILENAME        send stdout and stderr to given file\<newline>''
        @ ''\<newline>Options for bootstrapping mode:\<newline>''
        @ ''  --boot             selects bootstrapping mode (must be first argument)\<newline>''
        @ ''  DBNAME             database name (mandatory argument in bootstrapping mode)\<newline>''
        @ ''  -r FILENAME        send stdout and stderr to given file\<newline>''
        @ ''  -x NUM             internal use\<newline>''
        @ ''\<newline>Please read the documentation for the complete list of run-time\<newline>configuration settings and how to set them on the command line or in\<newline>the configuration file.\<newline>\<newline>Report bugs to <pgsql-bugs@lists.postgresql.org>.\<newline>''\<close>
    by (simp add: help_text_def)
qed

theorem help_version_short_circuit_witness:
  "status (started linux_user [''postgres'', ''-V'', ''--single'', ''mydb''] german) = Running
   \<and> status (main linux_user [''postgres'', ''-V'', ''--single'', ''mydb''] german) = Exited 0
   \<and> stdout (trace (main linux_user [''postgres'', ''-V'', ''--single'', ''mydb''] german))
       = [''postgres (PostgreSQL) 12.0\<newline>'']
   \<and> status (started linux_user [''postgres'', ''--help''] german) = Running
   \<and> status (main linux_user [''postgres'', ''--help''] german) = Exited 0
   \<and> length (stdout (trace (main linux_user [''postgres'', ''--help''] german))) = 44
   \<and> take 2 (stdout (trace (main linux_user [''postgres'', ''--help''] german)))
       = [''postgres is the PostgreSQL server.\<newline>\<newline>'',
          ''Usage:\<newline>  postgres [OPTION]...\<newline>\<newline>'']"
proof -
  have h: "status (started linux_user [''postgres'', ''-V'', ''--single'', ''mydb''] german) = Running"
    "status (started linux_user [''postgres'', ''--help''] german) = Running"
    by (rule started_linux_user)+
  have u: "USE_SSL linux_user" "gettext linux_user = (\<lambda>m. m)"
    by (simp_all add: linux_user_def)
  have t: "take 2 (help_text linux_user ''postgres'')
       = [''postgres is the PostgreSQL server.\<newline>\<newline>'',
          ''Usage:\<newline>  postgres [OPTION]...\<newline>\<newline>'']"
    by (simp add: help_text_def u)
  show ?thesis
    using h u
      help_version_short_circuit[of "[''postgres'', ''-V'', ''--single'', ''mydb'']"
        linux_user german]
      help_version_short_circuit[of "[''postgres'', ''--help'']" linux_user german "''postgres''"]
    by (simp add: linux_user_fields progname_def t)
qed

text \<open>
  C4. The root check runs when there is no first argument and when the first
  argument is \<^verbatim>\<open>--boot\<close> or \<^verbatim>\<open>--single\<close>. Whenever it runs (start-up has
  completed, the first argument is not a help or version option, and
  \<^verbatim>\<open>do_check_root\<close> is still true), the process exits with status 1 without
  calling any role driver if the effective user is the superuser (the
  administrator on Windows), and also if the real and the effective user id
  differ, whatever the effective one is.
\<close>
theorem check_root_refuses:
  "(length argv \<le> 1 \<or> argv ! 1 = ''--boot'' \<or> argv ! 1 = ''--single'' \<longrightarrow> do_check_root argv)
   \<and> (status (started P argv env) = Running
        \<and> \<not> (1 < length argv \<and> argv ! 1 \<in> {''--help'', ''-?'', ''--version'', ''-V''})
        \<and> do_check_root argv
        \<and> (case ident P of Posix uid euid \<Rightarrow> euid = 0 \<or> uid \<noteq> euid | Windows admin \<Rightarrow> admin)
      \<longrightarrow> status (main P argv env) = Exited 1
        \<and> CheckRoot \<in> set (trace (main P argv env))
        \<and> calls (trace (main P argv env)) = []
        \<and> stdout (trace (main P argv env)) = [])"
  by (auto simp: main_cases frame started_quiet refuses_def do_check_root_def)

theorem check_root_refuses_witness:
  "status (started setuid_user [''postgres'', ''--single'', ''mydb''] german) = Running
   \<and> ident setuid_user = Posix 0 1000
   \<and> do_check_root [''postgres'', ''--single'', ''mydb'']
   \<and> status (main setuid_user [''postgres'', ''--single'', ''mydb''] german) = Exited 1
   \<and> calls (trace (main setuid_user [''postgres'', ''--single'', ''mydb''] german)) = []"
proof -
  have h: "status (started setuid_user [''postgres'', ''--single'', ''mydb''] german) = Running"
    by (simp add: model_defs platform_defs)
  have i: "ident setuid_user = Posix 0 1000"
    by (simp add: platform_defs)
  show ?thesis
    using h i check_root_refuses[of "[''postgres'', ''--single'', ''mydb'']" setuid_user german]
    by simp
qed

text \<open>
  C5. \<^verbatim>\<open>init_locale\<close> first asks for the requested locale; if that fails it asks
  for \<^verbatim>\<open>"C"\<close>; if that fails too the process ends with a fatal error whose
  message contains the rejected locale and ends with the category name. So when
  the start-up part of \<^verbatim>\<open>main\<close> has completed, every category of the platform
  has a resolved locale: one of its requests was answered with a locale name, the
  category holds that name, and it still holds one when \<^verbatim>\<open>main\<close> is over.
\<close>

theorem init_locale_negotiates:
  "init_locale P n c l s =
     (case setlocale P c l (environ s) of
        Some r \<Rightarrow> s\<lparr>perm_locale := (perm_locale s)(c \<mapsto> r),
                     trace := trace s @ [Setlocale c l (Some r)]\<rparr>
      | None \<Rightarrow>
         (case setlocale P c ''C'' (environ s) of
            Some r \<Rightarrow> s\<lparr>perm_locale := (perm_locale s)(c \<mapsto> r),
                         trace := trace s @ [Setlocale c l None, Setlocale c ''C'' (Some r)]\<rparr>
          | None \<Rightarrow> s\<lparr>status := Fatal (locale_failure l n),
                       trace := trace s @ [Setlocale c l None, Setlocale c ''C'' None]\<rparr>))
   \<and> sublist l (locale_failure l n) \<and> suffix n (locale_failure l n)
   \<and> (status (started P argv env) = Running \<longrightarrow>
        (\<forall>c' \<in> set (categories P).
           perm_locale (started P argv env) c' \<noteq> None
         \<and> perm_locale (main P argv env) c' \<noteq> None
         \<and> (\<exists>q x. Setlocale c' q (Some x) \<in> set (trace (main P argv env)))))"
proof -
  have "\<exists>q x. Setlocale c' q (Some x) \<in> set (trace (main P argv env))"
    if "status (started P argv env) = Running" "c' \<in> set (categories P)" for c'
    using main_trace_split[OF that(1)] that(2) by fastforce
  then show ?thesis
    using init_locale_cases[of P n c l s] started_resolved[of P argv env]
    by (simp add: main_keeps locale_failure_names)
qed

theorem init_locale_negotiates_witness:
  "status (started linux_user [''postgres''] german) = Running
   \<and> perm_locale (main linux_user [''postgres''] german) LC_COLLATE \<noteq> None
   \<and> perm_locale (main linux_user [''postgres''] german) LC_CTYPE \<noteq> None
   \<and> perm_locale (main linux_user [''postgres''] german) LC_MESSAGES \<noteq> None
   \<and> perm_locale (main linux_user [''postgres''] german) LC_MONETARY \<noteq> None
   \<and> perm_locale (main linux_user [''postgres''] german) LC_NUMERIC \<noteq> None
   \<and> perm_locale (main linux_user [''postgres''] german) LC_TIME \<noteq> None"
proof -
  have h: "status (started linux_user [''postgres''] german) = Running"
    by (rule started_linux_user)
  have c: "set (categories linux_user) =
             {LC_COLLATE, LC_CTYPE, LC_MESSAGES, LC_MONETARY, LC_NUMERIC, LC_TIME}"
    by (simp add: categories_def linux_user_def)
  show ?thesis
    using h init_locale_negotiates[of linux_user _ _ _ _ "[''postgres'']" german]
    unfolding c by blast
qed

text \<open>
  C6. Every request \<^verbatim>\<open>main\<close> makes for the monetary, numeric or time category
  asks for the literal \<^verbatim>\<open>"C"\<close>, in every build and whatever the environment holds.
  When start-up has completed, each of the three categories has the locale that a
  request for \<^verbatim>\<open>"C"\<close> resolved to, \<^verbatim>\<open>LC_ALL\<close> is no longer in the environment, and
  the \<^verbatim>\<open>unsetenv\<close> comes after a successful request for every category.
\<close>

theorem pinned_categories:
  "(Setlocale c l r \<in> set (trace (main P argv env))
      \<and> (c = LC_MONETARY \<or> c = LC_NUMERIC \<or> c = LC_TIME) \<longrightarrow> l = ''C'')
   \<and> (status (started P argv env) = Running \<longrightarrow>
        environ (started P argv env) ''LC_ALL'' = None
      \<and> environ (main P argv env) ''LC_ALL'' = None
      \<and> (\<forall>k \<in> {LC_MONETARY, LC_NUMERIC, LC_TIME}.
            \<exists>x. perm_locale (main P argv env) k = Some x
               \<and> Setlocale k ''C'' (Some x) \<in> set (trace (main P argv env)))
      \<and> (\<exists>pre post. trace (main P argv env) = pre @ Unsetenv ''LC_ALL'' # post
            \<and> (\<forall>k \<in> set (categories P). \<exists>q x. Setlocale k q (Some x) \<in> set pre)))"
proof (intro conjI impI)
  assume "Setlocale c l r \<in> set (trace (main P argv env))
      \<and> (c = LC_MONETARY \<or> c = LC_NUMERIC \<or> c = LC_TIME)"
  then show "l = ''C''" using main_trace_ok[of "Setlocale c l r" P argv env] by simp
next
  assume s: "status (started P argv env) = Running"
  show "environ (started P argv env) ''LC_ALL'' = None" by (rule started_trace(2)[OF s])
  then show "environ (main P argv env) ''LC_ALL'' = None" by (simp add: main_keeps)
  show "\<forall>k \<in> {LC_MONETARY, LC_NUMERIC, LC_TIME}.
            \<exists>x. perm_locale (main P argv env) k = Some x
               \<and> Setlocale k ''C'' (Some x) \<in> set (trace (main P argv env))"
    using main_pinned[OF s] by blast
  show "\<exists>pre post. trace (main P argv env) = pre @ Unsetenv ''LC_ALL'' # post
            \<and> (\<forall>k \<in> set (categories P). \<exists>q x. Setlocale k q (Some x) \<in> set pre)"
    by (rule main_trace_split[OF s])
qed

theorem pinned_categories_witness:
  "status (started linux_user [''postgres''] german) = Running
   \<and> german ''LC_ALL'' = Some ''de_DE.UTF-8''
   \<and> environ (main linux_user [''postgres''] german) ''LC_ALL'' = None
   \<and> perm_locale (main linux_user [''postgres''] german) LC_MONETARY = Some ''C''
   \<and> perm_locale (main linux_user [''postgres''] german) LC_NUMERIC = Some ''C''
   \<and> perm_locale (main linux_user [''postgres''] german) LC_TIME = Some ''C''
   \<and> perm_locale (main linux_user [''postgres''] german) LC_COLLATE = Some ''de_DE.UTF-8''"
proof -
  have h: "status (started linux_user [''postgres''] german) = Running"
    by (rule started_linux_user)
  have g: "german ''LC_ALL'' = Some ''de_DE.UTF-8''"
    by (simp add: german_def)
  have p: "perm_locale (started linux_user [''postgres''] german)
             = [LC_COLLATE \<mapsto> ''de_DE.UTF-8'', LC_CTYPE \<mapsto> ''de_DE.UTF-8'',
                LC_MESSAGES \<mapsto> ''de_DE.UTF-8'', LC_MONETARY \<mapsto> ''C'', LC_NUMERIC \<mapsto> ''C'',
                LC_TIME \<mapsto> ''C'']"
    by (simp add: model_defs platform_defs)
  show ?thesis
    using h g pinned_categories[of _ _ _ linux_user "[''postgres'']" german]
    by (simp add: main_keeps p)
qed

text \<open>
  C7. The claim has the user name passed only when no database name is given, and
  the database name passed as the target. For \<^verbatim>\<open>postgres --single mydb\<close> the call
  is \<^verbatim>\<open>PostgresMain(argc, argv, NULL, username)\<close>: the database-name parameter is
  \<^verbatim>\<open>NULL\<close> and the user name is passed although a database name was given.
\<close>

theorem single_target_counterexample:
  "calls (trace (main linux_user [''postgres'', ''--single'', ''mydb''] german))
     = [PostgresMain [''postgres'', ''--single'', ''mydb''] None (Some ''alice'')]"
  by (simp add: main_calls at_dispatch_Running_iff started_linux_user dispatched_def
      fork_taken_def chain_call_def do_check_root_def refuses_def linux_user_fields progname_def)

text \<open>
  C7, amended. When the dispatch is reached with \<^verbatim>\<open>--single\<close> as first argument,
  \<^verbatim>\<open>main\<close> calls \<^verbatim>\<open>get_user_name_or_exit\<close> for the program name, whether or not
  further arguments follow. If that routine returns a name, the one driver
  called is \<^verbatim>\<open>PostgresMain\<close>, with the whole argument vector, no database name,
  and what \<^verbatim>\<open>strdup\<close> gives for that user name (the copy of it, unless memory
  is exhausted); a database name travels inside the argument vector only.
  If the routine ends the process instead, no driver is called and the exit
  status is 1.
\<close>

theorem single_session_dispatch:
  "status (at_dispatch P argv env) = Running \<and> 1 < length argv \<and> argv ! 1 = ''--single'' \<longrightarrow>
     Extern ''get_user_name_or_exit'' \<in> set (trace (main P argv env))
   \<and> (case get_user_name_or_exit P (progname P argv) of
         Some name \<Rightarrow>
           calls (trace (main P argv env)) = [PostgresMain argv None (strdup P name)]
       | None \<Rightarrow>
           calls (trace (main P argv env)) = [] \<and> status (main P argv env) = Exited 1)"
  by (simp add: main_calls main_status main_lookup_called dispatched_def fork_taken_def
      chain_call_def lookup_fails_def split: option.splits)

theorem single_session_dispatch_witness:
  "status (at_dispatch linux_user [''postgres'', ''--single''] german) = Running
   \<and> calls (trace (main linux_user [''postgres'', ''--single''] german))
       = [PostgresMain [''postgres'', ''--single''] None (Some ''alice'')]
   \<and> status (at_dispatch no_passwd [''postgres'', ''--single''] german) = Running
   \<and> get_user_name_or_exit no_passwd (progname no_passwd [''postgres'', ''--single'']) = None
   \<and> calls (trace (main no_passwd [''postgres'', ''--single''] german)) = []
   \<and> status (main no_passwd [''postgres'', ''--single''] german) = Exited 1"
proof -
  have h: "status (at_dispatch linux_user [''postgres'', ''--single''] german) = Running"
    by (simp add: at_dispatch_Running_iff started_linux_user do_check_root_def refuses_def
        linux_user_fields)
  have k: "status (at_dispatch no_passwd [''postgres'', ''--single''] german) = Running"
    by (simp add: at_dispatch_Running_iff started_no_passwd do_check_root_def refuses_def
        no_passwd_fields)
  show ?thesis
    using h k single_session_dispatch[of linux_user "[''postgres'', ''--single'']" german]
      single_session_dispatch[of no_passwd "[''postgres'', ''--single'']" german]
    by (simp add: linux_user_fields no_passwd_fields progname_def)
qed

text \<open>
  C8. The claim has exactly one role driver called for every mode that is
  dispatched, and a return of control answered by \<^verbatim>\<open>abort\<close> at once, never by an
  exit or a fall into the default. Two runs differ. With \<^verbatim>\<open>postgres --single\<close>
  and a user whose name cannot be looked up, the dispatch is reached, no driver
  is called and the process exits with status 1. On a build with
  \<^verbatim>\<open>EXEC_BACKEND\<close>, if \<^verbatim>\<open>SubPostmasterMain\<close> gives control back for
  \<^verbatim>\<open>postgres --forkbackend\<close>, the \<^verbatim>\<open>if\<close>/\<^verbatim>\<open>else\<close> chain behind it runs: a second
  driver, the default \<^verbatim>\<open>PostmasterMain\<close>, is called and keeps control; the process
  does not abort.
\<close>

theorem dispatch_counterexample:
  "status (at_dispatch no_passwd [''postgres'', ''--single''] german) = Running
   \<and> calls (trace (main no_passwd [''postgres'', ''--single''] german)) = []
   \<and> status (main no_passwd [''postgres'', ''--single''] german) = Exited 1
   \<and> calls (trace (main forking_build [''postgres'', ''--forkbackend''] german))
       = [SubPostmasterMain [''postgres'', ''--forkbackend''],
          PostmasterMain [''postgres'', ''--forkbackend'']]
   \<and> status (main forking_build [''postgres'', ''--forkbackend''] german) = Handed_over"
proof -
  have k: "status (at_dispatch no_passwd [''postgres'', ''--single''] german) = Running"
    by (simp add: at_dispatch_Running_iff started_no_passwd do_check_root_def refuses_def
        no_passwd_fields)
  have l: "lookup_fails no_passwd [''postgres'', ''--single'']"
    by (simp add: lookup_fails_def no_passwd_fields)
  have d: "status (at_dispatch forking_build [''postgres'', ''--forkbackend''] german) = Running"
    by (simp add: at_dispatch_Running_iff started_examples do_check_root_def refuses_def
        forking_build_fields)
  have n: "\<not> lookup_fails forking_build [''postgres'', ''--forkbackend'']"
    by (simp add: lookup_fails_def)
  have c: "dispatched forking_build [''postgres'', ''--forkbackend'']
             = [SubPostmasterMain [''postgres'', ''--forkbackend''],
                PostmasterMain [''postgres'', ''--forkbackend'']]"
    by (simp add: dispatched_def fork_taken_def chain_call_def forking_build_fields)
  show ?thesis
    using k l d n dispatched_empty[of no_passwd "[''postgres'', ''--single'']"]
    by (simp add: main_calls main_status c forking_build_fields)
qed

text \<open>
  C8, amended. Whenever the dispatch is reached, one of two things happens. For
  \<^verbatim>\<open>--single\<close> with a user whose name cannot be looked up, the process exits with
  status 1 inside \<^verbatim>\<open>get_user_name_or_exit\<close> and no driver is called. In every
  other case at least one role driver is called and \<^verbatim>\<open>main\<close> neither returns nor
  exits: the process ends inside a driver, or by \<^verbatim>\<open>abort\<close>, and it aborts exactly
  when the driver called last gave control back. Exactly one driver is then
  called when no driver gives control back, and also whenever the \<^verbatim>\<open>--fork\<close>
  branch of an \<^verbatim>\<open>EXEC_BACKEND\<close> build is not the one that returned; a return of
  that one driver is answered by \<^verbatim>\<open>abort\<close> at once.
\<close>

theorem dispatch_total:
  "status (at_dispatch P argv env) = Running \<longrightarrow>
     (if 1 < length argv \<and> argv ! 1 = ''--single''
         \<and> get_user_name_or_exit P (progname P argv) = None
      then calls (trace (main P argv env)) = [] \<and> status (main P argv env) = Exited 1
      else calls (trace (main P argv env)) \<noteq> []
         \<and> status (main P argv env) =
             (if driver_returns P (last (calls (trace (main P argv env))))
              then Aborted else Handed_over)
         \<and> ((\<forall>c. \<not> driver_returns P c) \<longrightarrow>
              length (calls (trace (main P argv env))) = 1
              \<and> status (main P argv env) = Handed_over)
         \<and> (\<not> (EXEC_BACKEND P \<and> 1 < length argv \<and> take 6 (argv ! 1) = ''--fork''
                 \<and> driver_returns P (SubPostmasterMain argv)) \<longrightarrow>
              length (calls (trace (main P argv env))) = 1))"
proof (intro impI)
  assume d: "status (at_dispatch P argv env) = Running"
  show "if 1 < length argv \<and> argv ! 1 = ''--single''
         \<and> get_user_name_or_exit P (progname P argv) = None
      then calls (trace (main P argv env)) = [] \<and> status (main P argv env) = Exited 1
      else calls (trace (main P argv env)) \<noteq> []
         \<and> status (main P argv env) =
             (if driver_returns P (last (calls (trace (main P argv env))))
              then Aborted else Handed_over)
         \<and> ((\<forall>c. \<not> driver_returns P c) \<longrightarrow>
              length (calls (trace (main P argv env))) = 1
              \<and> status (main P argv env) = Handed_over)
         \<and> (\<not> (EXEC_BACKEND P \<and> 1 < length argv \<and> take 6 (argv ! 1) = ''--fork''
                 \<and> driver_returns P (SubPostmasterMain argv)) \<longrightarrow>
              length (calls (trace (main P argv env))) = 1)"
  proof (cases "lookup_fails P argv")
    case True
    then have "dispatched P argv = []" by (simp add: dispatched_empty)
    then show ?thesis using True d by (simp add: main_calls main_status lookup_fails_def)
  next
    case False
    then obtain c where c: "chain_call P argv = [c]" using chain_call_one by blast
    show ?thesis
      using False d
      by (auto simp: main_calls main_status dispatched_def fork_taken_def c lookup_fails_def)
  qed
qed

theorem dispatch_total_witness:
  "status (at_dispatch forking_build [''postgres'', ''--boot'', ''-x1''] german) = Running
   \<and> calls (trace (main forking_build [''postgres'', ''--boot'', ''-x1''] german))
       = [AuxiliaryProcessMain [''postgres'', ''--boot'', ''-x1'']]
   \<and> status (main forking_build [''postgres'', ''--boot'', ''-x1''] german) = Handed_over"
proof -
  have d: "status (at_dispatch forking_build [''postgres'', ''--boot'', ''-x1''] german) = Running"
    by (simp add: at_dispatch_Running_iff started_examples do_check_root_def refuses_def
        forking_build_fields)
  have c: "calls (trace (main forking_build [''postgres'', ''--boot'', ''-x1''] german))
             = [AuxiliaryProcessMain [''postgres'', ''--boot'', ''-x1'']]"
    using d by (simp add: main_calls dispatched_def fork_taken_def chain_call_def)
  have r: "\<not> driver_returns forking_build (AuxiliaryProcessMain [''postgres'', ''--boot'', ''-x1''])"
    by (simp add: forking_build_def linux_user_def)
  show ?thesis
    using d r dispatch_total[of forking_build "[''postgres'', ''--boot'', ''-x1'']" german]
    unfolding c by simp
qed

text \<open>
  C9. With \<^verbatim>\<open>-C\<close> as first argument and a value behind it, \<^verbatim>\<open>check_root\<close> is
  not called, whoever runs the process, and the one driver called is
  \<^verbatim>\<open>PostmasterMain\<close> with the whole argument vector. \<^verbatim>\<open>GucInfoMain\<close> is called
  only when the first argument is \<^verbatim>\<open>--describe-config\<close>, and then it is the one
  driver called.
\<close>
theorem query_flag_goes_to_postmaster:
  "(status (started P argv env) = Running \<and> 2 < length argv \<and> argv ! 1 = ''-C'' \<longrightarrow>
       CheckRoot \<notin> set (trace (main P argv env))
     \<and> calls (trace (main P argv env)) = [PostmasterMain argv])
   \<and> (GucInfoMain \<in> set (calls (trace (main P argv env))) \<longrightarrow>
        1 < length argv \<and> argv ! 1 = ''--describe-config'')
   \<and> (status (at_dispatch P argv env) = Running \<and> 1 < length argv \<and> argv ! 1 = ''--describe-config''
        \<longrightarrow> calls (trace (main P argv env)) = [GucInfoMain])"
proof (intro conjI impI)
  assume a: "status (started P argv env) = Running \<and> 2 < length argv \<and> argv ! 1 = ''-C''"
  then have d: "status (at_dispatch P argv env) = Running" and n: "\<not> do_check_root argv"
    by (simp_all add: at_dispatch_Running_iff do_check_root_def)
  show "CheckRoot \<notin> set (trace (main P argv env))"
    using d n by (simp add: main_CheckRoot)
  show "calls (trace (main P argv env)) = [PostmasterMain argv]"
    using a d by (simp add: main_calls dispatched_def fork_taken_def chain_call_def)
next
  assume "GucInfoMain \<in> set (calls (trace (main P argv env)))"
  then have "GucInfoMain \<in> set (dispatched P argv)"
    by (simp add: main_calls split: if_splits)
  then have "GucInfoMain \<in> set (chain_call P argv)"
    by (auto simp: dispatched_def split: if_splits)
  then have g: "1 < length argv \<and> argv ! 1 = ''--describe-config''"
    by (simp add: chain_call_def split: if_splits option.splits)
  from g show "1 < length argv" by simp
  from g show "argv ! 1 = ''--describe-config''" by simp
next
  assume "status (at_dispatch P argv env) = Running \<and> 1 < length argv \<and> argv ! 1 = ''--describe-config''"
  then show "calls (trace (main P argv env)) = [GucInfoMain]"
    by (simp add: main_calls dispatched_def fork_taken_def chain_call_def)
qed

theorem query_flag_goes_to_postmaster_witness:
  "status (started linux_root [''postgres'', ''-C'', ''port''] german) = Running
   \<and> CheckRoot \<notin> set (trace (main linux_root [''postgres'', ''-C'', ''port''] german))
   \<and> calls (trace (main linux_root [''postgres'', ''-C'', ''port''] german))
       = [PostmasterMain [''postgres'', ''-C'', ''port'']]"
proof -
  have h: "status (started linux_root [''postgres'', ''-C'', ''port''] german) = Running"
    by (simp add: model_defs platform_defs)
  show ?thesis
    using h query_flag_goes_to_postmaster[of linux_root "[''postgres'', ''-C'', ''port'']" german]
    by simp
qed

text \<open>
  C10. With \<^verbatim>\<open>--help\<close>, \<^verbatim>\<open>-?\<close>, \<^verbatim>\<open>--version\<close> or \<^verbatim>\<open>-V\<close> as first argument, when
  start-up completes the trace of the process is: a part without any output in
  which every category got a locale, then the \<^verbatim>\<open>unsetenv\<close> of \<^verbatim>\<open>LC_ALL\<close>, then
  \<^verbatim>\<open>check_strxfrm_bug\<close>, and only then the output, followed by exit status 0.
  When some category can be given no locale at all, nothing is printed and the
  process has ended with a fatal error (or, under Windows, earlier still with
  status 1 when the socket library failed to start).
\<close>

theorem locale_before_information:
  "1 < length argv \<and> argv ! 1 \<in> {''--help'', ''-?'', ''--version'', ''-V''} \<longrightarrow>
     (status (started P argv env) = Running \<longrightarrow>
        status (main P argv env) = Exited 0
      \<and> environ (main P argv env) ''LC_ALL'' = None
      \<and> (\<exists>pre out.
            trace (main P argv env)
              = pre @ Unsetenv ''LC_ALL'' # Extern ''check_strxfrm_bug'' # map Stdout out
          \<and> out \<noteq> [] \<and> stdout pre = []
          \<and> (\<forall>k \<in> set (categories P). \<exists>q x. Setlocale k q (Some x) \<in> set pre)))
   \<and> ((\<exists>k \<in> set (categories P). \<forall>q e. setlocale P k q e = None) \<longrightarrow>
        stdout (trace (main P argv env)) = []
      \<and> ((\<exists>m. status (main P argv env) = Fatal m)
         \<or> (WIN32 P \<and> WSAStartup P \<noteq> 0 \<and> status (main P argv env) = Exited 1)))"
proof (intro impI conjI)
  assume a: "1 < length argv \<and> argv ! 1 \<in> {''--help'', ''-?'', ''--version'', ''-V''}"
  assume s: "status (started P argv env) = Running"
  from informational_trace[OF s] a obtain out where
    o: "out \<noteq> []" "status (main P argv env) = Exited 0"
       "trace (main P argv env) = trace (started P argv env) @ map Stdout out"
    by blast
  from started_trace(1)[OF s] obtain pre where
    p: "trace (started P argv env) = pre @ [Unsetenv ''LC_ALL'', Extern ''check_strxfrm_bug'']"
    and q: "\<forall>c\<in>set (categories P). \<exists>l r. Setlocale c l (Some r) \<in> set pre"
    by blast
  show "status (main P argv env) = Exited 0" by (rule o(2))
  show "environ (main P argv env) ''LC_ALL'' = None"
    using started_trace(2)[OF s] by (simp add: main_keeps)
  have "stdout pre = []"
    using started_quiet(1)[of P argv env] by (simp add: p stdout_append)
  moreover have "trace (main P argv env)
      = pre @ Unsetenv ''LC_ALL'' # Extern ''check_strxfrm_bug'' # map Stdout out"
    by (simp add: o(3) p)
  ultimately show "\<exists>pre out.
            trace (main P argv env)
              = pre @ Unsetenv ''LC_ALL'' # Extern ''check_strxfrm_bug'' # map Stdout out
          \<and> out \<noteq> [] \<and> stdout pre = []
          \<and> (\<forall>k \<in> set (categories P). \<exists>q x. Setlocale k q (Some x) \<in> set pre)"
    using o(1) q by blast
next
  assume "\<exists>k \<in> set (categories P). \<forall>q e. setlocale P k q e = None"
  then have n: "status (started P argv env) \<noteq> Running"
    using started_fails by blast
  then have m: "main P argv env = started P argv env" by (rule main_not_started)
  show "stdout (trace (main P argv env)) = []"
    by (simp add: m started_quiet)
  show "(\<exists>m. status (main P argv env) = Fatal m)
         \<or> (WIN32 P \<and> WSAStartup P \<noteq> 0 \<and> status (main P argv env) = Exited 1)"
    using n started_status[of P argv env] by (simp add: m ended_in_startup_def)
qed

theorem locale_before_information_witness:
  "status (started linux_user [''postgres'', ''--help''] german) = Running
   \<and> status (main linux_user [''postgres'', ''--help''] german) = Exited 0
   \<and> environ (main linux_user [''postgres'', ''--help''] german) ''LC_ALL'' = None
   \<and> (\<forall>q e. setlocale no_locale LC_COLLATE q e = None)
   \<and> stdout (trace (main no_locale [''postgres'', ''--help''] german)) = []
   \<and> status (main no_locale [''postgres'', ''--help''] german)
       = Fatal (locale_failure [] ''LC_COLLATE'')"
proof -
  have h: "status (started linux_user [''postgres'', ''--help''] german) = Running"
    by (rule started_linux_user)
  have f: "\<forall>q e. setlocale no_locale LC_COLLATE q e = None"
    by (simp add: no_locale_def)
  have c: "LC_COLLATE \<in> set (categories no_locale)"
    by (simp add: categories_def)
  have w: "\<not> WIN32 no_locale"
    by (simp add: WIN32_def no_locale_def linux_user_def)
  have m: "status (started no_locale [''postgres'', ''--help''] german)
             = Fatal (locale_failure [] ''LC_COLLATE'')"
    by (simp add: model_defs no_locale_def linux_user_def)
  then have e: "main no_locale [''postgres'', ''--help''] german
                  = started no_locale [''postgres'', ''--help''] german"
    by (simp add: main_not_started)
  show ?thesis
    using h f c w
      locale_before_information[of "[''postgres'', ''--help'']" linux_user german]
      locale_before_information[of "[''postgres'', ''--help'']" no_locale german]
    by (simp add: e m) blast
qed

end
